theory Spec2Isabelle
  imports Main
begin

section \<open>Values, errors and rows\<close>

text \<open>
  The module \<^verbatim>\<open>database.py\<close> keeps three tables in an SQLite file and reaches them
  through Python's \<^verbatim>\<open>sqlite3\<close> driver. Text is a \<open>string\<close>; integers are Python's
  unbounded \<open>int\<close>, and the driver refuses to bind one that does not fit SQLite's signed
  64-bit INTEGER. Time is an input: every statement that writes \<^verbatim>\<open>CURRENT_TIMESTAMP\<close>
  takes the current time as an argument. The digest
  \<^verbatim>\<open>hashlib.sha256(p.encode()).hexdigest()\<close> is a library function; the functions that
  use it take it as their first argument \<open>sha256_hex\<close>.

  One thread calls the module. Limits of the machine (disk space, a file that cannot be
  opened) are not part of the model; the limits of the data (a missing table, a violated
  constraint, an exhausted key space, an integer that is too large) and the write lock of
  the file are, and each of them is a raised exception.
\<close>

datatype exn =
    IntegrityError string
  | OperationalError string
  | OverflowError string
  | TypeError string

fun exn_message :: "exn \<Rightarrow> string" where
  "exn_message (IntegrityError m) = m"
| "exn_message (OperationalError m) = m"
| "exn_message (OverflowError m) = m"
| "exn_message (TypeError m) = m"



type_synonym timestamp = string

record user_row =
  u_id :: int
  u_username :: string
  u_password_hash :: string
  u_created_at :: timestamp
  u_is_active :: int

record config_row =
  c_user_id :: int
  c_chat_id :: string
  c_name_prefix :: string
  c_delay :: int
  c_cookies :: string
  c_messages :: string
  c_automation_running :: int
  c_updated_at :: timestamp

record thread_row =
  a_user_id :: int
  a_thread_id :: string
  a_cookies :: string
  a_chat_type :: string
  a_created_at :: timestamp

text \<open>
  The contents of a database. A table that has not been created is \<open>None\<close>.
  \<open>users_seq\<close> is the entry of \<^verbatim>\<open>sqlite_sequence\<close> that AUTOINCREMENT keeps for
  \<^verbatim>\<open>users\<close>: the largest row identifier the table has ever held, 0 when there is no
  entry.
\<close>

record db =
  users :: "user_row list option"
  users_seq :: int
  user_configs :: "config_row list option"
  admin_threads :: "thread_row list option"


section \<open>Connections and the file\<close>

text \<open>
  A connection reads and writes its own \<open>view\<close> of the database: the committed contents
  of the file together with the writes of its open transaction. The driver opens a
  transaction before the first INSERT or UPDATE of a connection; that statement takes
  the write lock of the file, and the connection is \<open>writing\<close> until it commits or is
  closed.

  The state of the store is the file and the connections that earlier calls have left
  open. A function of the module that leaves through an \<^verbatim>\<open>except\<close> clause never reaches
  its \<^verbatim>\<open>conn.close()\<close>: the connection stays open, with its transaction and its lock,
  until Python's garbage collector frees it, and only then is the transaction rolled
  back. While a connection that is writing stays open, no other connection can write.
\<close>

record conn =
  view :: db
  writing :: bool

record world =
  disk :: db
  open_conns :: "conn list"

definition fresh :: world where
  "fresh = \<lparr>disk = \<lparr>users = None, users_seq = 0, user_configs = None, admin_threads = None\<rparr>,
            open_conns = []\<rparr>"

definition locked :: "world \<Rightarrow> bool" where
  "locked w = list_ex writing (open_conns w)"

definition get_db_connection :: "world \<Rightarrow> conn" where
  "get_db_connection w = \<lparr>view = disk w, writing = False\<rparr>"

text \<open>
  The first writing statement of a connection takes the write lock, or fails after the
  driver's timeout when a connection left open holds it.
\<close>

definition write_lock :: "world \<Rightarrow> conn \<Rightarrow> exn \<times> conn + conn" where
  "write_lock w conn =
     (if writing conn then Inr conn
      else if locked w then Inl (OperationalError ''database is locked'', conn)
      else Inr (conn\<lparr>writing := True\<rparr>))"

text \<open>\<^verbatim>\<open>conn.commit()\<close> writes the open transaction to the file and releases the lock.\<close>

definition commit :: "conn \<Rightarrow> world \<Rightarrow> conn \<times> world" where
  "commit conn w =
     (if writing conn then (conn\<lparr>writing := False\<rparr>, w\<lparr>disk := view conn\<rparr>) else (conn, w))"

text \<open>\<^verbatim>\<open>conn.close()\<close>: the connection is gone; what it had not committed is rolled back.\<close>

definition close :: "conn \<Rightarrow> world \<Rightarrow> world" where
  "close conn w = w"

text \<open>Returning with the connection open, and the collector freeing what was left open.\<close>

definition leave_open :: "conn \<Rightarrow> world \<Rightarrow> world" where
  "leave_open conn w = w\<lparr>open_conns := conn # open_conns w\<rparr>"

definition collect :: "world \<Rightarrow> world" where
  "collect w = w\<lparr>open_conns := []\<rparr>"

section \<open>The statements\<close>

text \<open>
  A statement is prepared (a missing table is found here), its parameters are bound,
  and it is run. A statement that writes returns the connection after it, or the
  exception together with the connection as the exception leaves it.
\<close>

subsection \<open>Binding and row identifiers\<close>

definition max_rowid :: int where
  "max_rowid = 9223372036854775807"

definition is_int64 :: "int \<Rightarrow> bool" where
  "is_int64 i \<longleftrightarrow> - 9223372036854775808 \<le> i \<and> i \<le> max_rowid"

definition bind_int :: "int \<Rightarrow> exn + int" where
  "bind_int i =
     (if is_int64 i then Inr i
      else Inl (OverflowError ''Python int too large to convert to SQLite INTEGER''))"

fun largest :: "int list \<Rightarrow> int option" where
  "largest [] = None"
| "largest (x # xs) = (case largest xs of None \<Rightarrow> Some x | Some m \<Rightarrow> Some (max x m))"

text \<open>
  The identifier of a new row of an AUTOINCREMENT table: one more than the largest
  identifier in the table and than the recorded sequence value; none is left once
  either of them is the largest 64-bit integer.
\<close>

definition new_rowid :: "int \<Rightarrow> int list \<Rightarrow> exn + int" where
  "new_rowid seq ids =
     (case largest ids of
        None \<Rightarrow>
          if seq = max_rowid then Inl (OperationalError ''database or disk is full'')
          else Inr (max 1 (seq + 1))
      | Some m \<Rightarrow>
          if seq = max_rowid \<or> max_rowid \<le> m
          then Inl (OperationalError ''database or disk is full'')
          else Inr (max (m + 1) (seq + 1)))"

subsection \<open>Schema\<close>

text \<open>
  \<^verbatim>\<open>CREATE TABLE IF NOT EXISTS\<close> on a connection without a transaction: nothing happens
  when the table \<open>exists\<close>; otherwise the statement needs the write lock and commits the
  new, empty table as it runs (\<open>create\<close>).
\<close>

definition create_table_if_not_exists ::
  "world \<Rightarrow> conn \<Rightarrow> bool \<Rightarrow> (db \<Rightarrow> db) \<Rightarrow> exn \<times> conn + conn \<times> world" where
  "create_table_if_not_exists w conn exists create =
     (if exists then Inr (conn, w)
      else if locked w then Inl (OperationalError ''database is locked'', conn)
      else Inr (conn\<lparr>view := create (view conn)\<rparr>, w\<lparr>disk := create (disk w)\<rparr>))"

subsection \<open>Table \<^verbatim>\<open>users\<close>\<close>

text \<open>
  \<^verbatim>\<open>INSERT INTO users (username, password_hash) VALUES (?, ?)\<close>. A bound value is
  \<open>None\<close> for SQL NULL. The statement takes the write lock, allocates the row
  identifier, then checks NOT NULL and UNIQUE; \<^verbatim>\<open>created_at\<close> and \<^verbatim>\<open>is_active\<close> take
  their defaults.
\<close>

definition insert_users ::
  "timestamp \<Rightarrow> world \<Rightarrow> conn \<Rightarrow> string option \<Rightarrow> string option \<Rightarrow> exn \<times> conn + conn" where
  "insert_users now w conn username password_hash =
     (case users (view conn) of
        None \<Rightarrow> Inl (OperationalError ''no such table: users'', conn)
      | Some rows \<Rightarrow>
          (case write_lock w conn of
             Inl raised \<Rightarrow> Inl raised
           | Inr conn \<Rightarrow>
               (case new_rowid (users_seq (view conn)) (map u_id rows) of
                  Inl e \<Rightarrow> Inl (e, conn)
                | Inr rid \<Rightarrow>
                    (case username of
                       None \<Rightarrow>
                         Inl (IntegrityError ''NOT NULL constraint failed: users.username'', conn)
                     | Some name \<Rightarrow>
                         (case password_hash of
                            None \<Rightarrow>
                              Inl (IntegrityError
                                     ''NOT NULL constraint failed: users.password_hash'', conn)
                          | Some h \<Rightarrow>
                              if name \<in> set (map u_username rows)
                              then Inl (IntegrityError
                                          ''UNIQUE constraint failed: users.username'', conn)
                              else Inr (conn\<lparr>view := (view conn)\<lparr>users := Some (rows @
                                      [\<lparr>u_id = rid, u_username = name, u_password_hash = h,
                                        u_created_at = now, u_is_active = 1\<rparr>]),
                                    users_seq := rid\<rparr>\<rparr>))))))"

text \<open>\<^verbatim>\<open>SELECT id FROM users WHERE username = ?\<close>, then \<^verbatim>\<open>fetchone()\<close>.\<close>

definition select_id_by_username :: "conn \<Rightarrow> string \<Rightarrow> exn + int option" where
  "select_id_by_username conn username =
     (case users (view conn) of
        None \<Rightarrow> Inl (OperationalError ''no such table: users'')
      | Some rows \<Rightarrow> Inr (map_option u_id (find (\<lambda>r. u_username r = username) rows)))"

text \<open>
  \<^verbatim>\<open>SELECT id FROM users WHERE username = ? AND password_hash = ? AND is_active = 1\<close>,
  then \<^verbatim>\<open>fetchone()\<close>.
\<close>

definition select_id_by_credentials :: "conn \<Rightarrow> string \<Rightarrow> string \<Rightarrow> exn + int option" where
  "select_id_by_credentials conn username password_hash =
     (case users (view conn) of
        None \<Rightarrow> Inl (OperationalError ''no such table: users'')
      | Some rows \<Rightarrow>
          Inr (map_option u_id
                (find (\<lambda>r. u_username r = username \<and> u_password_hash r = password_hash
                            \<and> u_is_active r = 1) rows)))"

text \<open>\<^verbatim>\<open>SELECT username FROM users WHERE id = ?\<close>, then \<^verbatim>\<open>fetchone()\<close>.\<close>

definition select_username :: "conn \<Rightarrow> int \<Rightarrow> exn + string option" where
  "select_username conn user_id =
     (case users (view conn) of
        None \<Rightarrow> Inl (OperationalError ''no such table: users'')
      | Some rows \<Rightarrow>
          (case bind_int user_id of
             Inl e \<Rightarrow> Inl e
           | Inr uid \<Rightarrow> Inr (map_option u_username (find (\<lambda>r. u_id r = uid) rows))))"

subsection \<open>Table \<^verbatim>\<open>user_configs\<close>\<close>

text \<open>
  \<^verbatim>\<open>INSERT INTO user_configs (user_id, chat_id, name_prefix, delay, cookies, messages)
  VALUES (?, ?, ?, ?, ?, ?)\<close>. \<^verbatim>\<open>user_id\<close> is the primary key; the reference to
  \<^verbatim>\<open>users\<close> is declared but SQLite does not enforce it unless asked to, and the module
  never asks. \<^verbatim>\<open>automation_running\<close> and \<^verbatim>\<open>updated_at\<close> take their defaults.
\<close>

definition insert_user_configs ::
  "timestamp \<Rightarrow> world \<Rightarrow> conn \<Rightarrow> int \<Rightarrow> string \<Rightarrow> string \<Rightarrow> int \<Rightarrow> string \<Rightarrow> string
     \<Rightarrow> exn \<times> conn + conn" where
  "insert_user_configs now w conn user_id chat name_pre dly cook msgs =
     (case user_configs (view conn) of
        None \<Rightarrow> Inl (OperationalError ''no such table: user_configs'', conn)
      | Some rows \<Rightarrow>
          (case bind_int user_id of
             Inl e \<Rightarrow> Inl (e, conn)
           | Inr uid \<Rightarrow>
               (case bind_int dly of
                  Inl e \<Rightarrow> Inl (e, conn)
                | Inr d \<Rightarrow>
                    (case write_lock w conn of
                       Inl raised \<Rightarrow> Inl raised
                     | Inr conn \<Rightarrow>
                         if uid \<in> set (map c_user_id rows)
                         then Inl (IntegrityError
                                     ''UNIQUE constraint failed: user_configs.user_id'', conn)
                         else Inr (conn\<lparr>view := (view conn)\<lparr>user_configs := Some (rows @
                                 [\<lparr>c_user_id = uid, c_chat_id = chat, c_name_prefix = name_pre,
                                   c_delay = d, c_cookies = cook, c_messages = msgs,
                                   c_automation_running = 0, c_updated_at = now\<rparr>])\<rparr>\<rparr>)))))"


text \<open>
  \<^verbatim>\<open>UPDATE user_configs SET chat_id = ?, name_prefix = ?, delay = ?, cookies = ?,
  messages = ?, updated_at = CURRENT_TIMESTAMP WHERE user_id = ?\<close>. The statement takes
  the write lock whether or not a row matches.
\<close>

definition update_config_fields ::
  "timestamp \<Rightarrow> world \<Rightarrow> conn \<Rightarrow> string \<Rightarrow> string \<Rightarrow> int \<Rightarrow> string \<Rightarrow> string \<Rightarrow> int
     \<Rightarrow> exn \<times> conn + conn" where
  "update_config_fields now w conn chat name_pre dly cook msgs user_id =
     (case user_configs (view conn) of
        None \<Rightarrow> Inl (OperationalError ''no such table: user_configs'', conn)
      | Some rows \<Rightarrow>
          (case bind_int dly of
             Inl e \<Rightarrow> Inl (e, conn)
           | Inr d \<Rightarrow>
               (case bind_int user_id of
                  Inl e \<Rightarrow> Inl (e, conn)
                | Inr uid \<Rightarrow>
                    (case write_lock w conn of
                       Inl raised \<Rightarrow> Inl raised
                     | Inr conn \<Rightarrow>
                         Inr (conn\<lparr>view := (view conn)\<lparr>user_configs := Some (map (\<lambda>r.
                                if c_user_id r = uid
                                then r\<lparr>c_chat_id := chat, c_name_prefix := name_pre,
                                       c_delay := d, c_cookies := cook, c_messages := msgs,
                                       c_updated_at := now\<rparr>
                                else r) rows)\<rparr>\<rparr>)))))"

text \<open>\<^verbatim>\<open>UPDATE user_configs SET automation_running = ? WHERE user_id = ?\<close>.\<close>

definition update_config_running :: "world \<Rightarrow> conn \<Rightarrow> int \<Rightarrow> int \<Rightarrow> exn \<times> conn + conn" where
  "update_config_running w conn flag user_id =
     (case user_configs (view conn) of
        None \<Rightarrow> Inl (OperationalError ''no such table: user_configs'', conn)
      | Some rows \<Rightarrow>
          (case bind_int flag of
             Inl e \<Rightarrow> Inl (e, conn)
           | Inr f \<Rightarrow>
               (case bind_int user_id of
                  Inl e \<Rightarrow> Inl (e, conn)
                | Inr uid \<Rightarrow>
                    (case write_lock w conn of
                       Inl raised \<Rightarrow> Inl raised
                     | Inr conn \<Rightarrow>
                         Inr (conn\<lparr>view := (view conn)\<lparr>user_configs := Some (map (\<lambda>r.
                                if c_user_id r = uid then r\<lparr>c_automation_running := f\<rparr> else r)
                                rows)\<rparr>\<rparr>)))))"

subsection \<open>Table \<^verbatim>\<open>admin_threads\<close>\<close>

text \<open>
  \<^verbatim>\<open>SELECT user_id FROM admin_threads WHERE user_id = ?\<close> and
  \<^verbatim>\<open>SELECT thread_id FROM admin_threads WHERE user_id = ?\<close>, each followed by
  \<^verbatim>\<open>fetchone()\<close>, return the first row of that user.
\<close>

definition select_thread :: "conn \<Rightarrow> int \<Rightarrow> exn + thread_row option" where
  "select_thread conn user_id =
     (case admin_threads (view conn) of
        None \<Rightarrow> Inl (OperationalError ''no such table: admin_threads'')
      | Some rows \<Rightarrow>
          (case bind_int user_id of
             Inl e \<Rightarrow> Inl e
           | Inr uid \<Rightarrow> Inr (find (\<lambda>r. a_user_id r = uid) rows)))"

text \<open>
  \<^verbatim>\<open>UPDATE admin_threads SET thread_id = ?, cookies = ?, chat_type = ?,
  created_at = CURRENT_TIMESTAMP WHERE user_id = ?\<close>.
\<close>

definition update_thread ::
  "timestamp \<Rightarrow> world \<Rightarrow> conn \<Rightarrow> string \<Rightarrow> string \<Rightarrow> string \<Rightarrow> int \<Rightarrow> exn \<times> conn + conn" where
  "update_thread now w conn thread cook ctype user_id =
     (case admin_threads (view conn) of
        None \<Rightarrow> Inl (OperationalError ''no such table: admin_threads'', conn)
      | Some rows \<Rightarrow>
          (case bind_int user_id of
             Inl e \<Rightarrow> Inl (e, conn)
           | Inr uid \<Rightarrow>
               (case write_lock w conn of
                  Inl raised \<Rightarrow> Inl raised
                | Inr conn \<Rightarrow>
                    Inr (conn\<lparr>view := (view conn)\<lparr>admin_threads := Some (map (\<lambda>r.
                           if a_user_id r = uid
                           then r\<lparr>a_thread_id := thread, a_cookies := cook,
                                  a_chat_type := ctype, a_created_at := now\<rparr>
                           else r) rows)\<rparr>\<rparr>))))"

text \<open>
  \<^verbatim>\<open>INSERT INTO admin_threads (user_id, thread_id, cookies, chat_type)
  VALUES (?, ?, ?, ?)\<close>; \<^verbatim>\<open>user_id\<close> is the primary key.
\<close>

definition insert_thread ::
  "timestamp \<Rightarrow> world \<Rightarrow> conn \<Rightarrow> int \<Rightarrow> string \<Rightarrow> string \<Rightarrow> string \<Rightarrow> exn \<times> conn + conn" where
  "insert_thread now w conn user_id thread cook ctype =
     (case admin_threads (view conn) of
        None \<Rightarrow> Inl (OperationalError ''no such table: admin_threads'', conn)
      | Some rows \<Rightarrow>
          (case bind_int user_id of
             Inl e \<Rightarrow> Inl (e, conn)
           | Inr uid \<Rightarrow>
               (case write_lock w conn of
                  Inl raised \<Rightarrow> Inl raised
                | Inr conn \<Rightarrow>
                    if uid \<in> set (map a_user_id rows)
                    then Inl (IntegrityError
                                ''UNIQUE constraint failed: admin_threads.user_id'', conn)
                    else Inr (conn\<lparr>view := (view conn)\<lparr>admin_threads := Some (rows @
                            [\<lparr>a_user_id = uid, a_thread_id = thread, a_cookies = cook,
                              a_chat_type = ctype, a_created_at = now\<rparr>])\<rparr>\<rparr>))))"

section \<open>The functions of \<^verbatim>\<open>database.py\<close>\<close>

text \<open>
  Each function is written as its source is: the lines of its \<^verbatim>\<open>try\<close> in order, every
  exception a value \<open>Inl\<close> that carries the connection and the store as they are where
  it is raised, and the \<^verbatim>\<open>except\<close> clauses, which return with the connection open.
  The functions that only read open no transaction; when their query raises, while it
  is prepared or bound, the connection they leave open holds no lock and no write, and
  they are written as functions of the store alone.
\<close>

definition init_db :: "world \<Rightarrow> exn \<times> conn \<times> world + world" where
  "init_db w =
     (let conn = get_db_connection w
      in case create_table_if_not_exists w conn (users (view conn) \<noteq> None)
                (\<lambda>d. d\<lparr>users := Some []\<rparr>) of
           Inl (e, conn) \<Rightarrow> Inl (e, conn, w)
         | Inr (conn, w) \<Rightarrow>
             (case create_table_if_not_exists w conn (user_configs (view conn) \<noteq> None)
                     (\<lambda>d. d\<lparr>user_configs := Some []\<rparr>) of
                Inl (e, conn) \<Rightarrow> Inl (e, conn, w)
              | Inr (conn, w) \<Rightarrow>
                  (case create_table_if_not_exists w conn (admin_threads (view conn) \<noteq> None)
                          (\<lambda>d. d\<lparr>admin_threads := Some []\<rparr>) of
                     Inl (e, conn) \<Rightarrow> Inl (e, conn, w)
                   | Inr (conn, w) \<Rightarrow>
                       (case commit conn w of (conn, w) \<Rightarrow> Inr (close conn w)))))"

definition default_messages :: string where
  "default_messages = ''Hello!\<newline>How are you?\<newline>Nice to meet you!''"

definition create_user_try ::
  "(string \<Rightarrow> string) \<Rightarrow> timestamp \<Rightarrow> timestamp \<Rightarrow> world \<Rightarrow> string \<Rightarrow> string
     \<Rightarrow> exn \<times> conn \<times> world + world" where
  "create_user_try sha256_hex now_users now_configs w username password =
     (let password_hash = sha256_hex password;
          conn = get_db_connection w
      in case insert_users now_users w conn (Some username) (Some password_hash) of
           Inl (e, conn) \<Rightarrow> Inl (e, conn, w)
         | Inr conn \<Rightarrow>
             (case select_id_by_username conn username of
                Inl e \<Rightarrow> Inl (e, conn, w)
              | Inr None \<Rightarrow>
                  Inl (TypeError (CHR 0x27 # ''NoneType'' @ CHR 0x27 #
                                  '' object is not subscriptable''), conn, w)
              | Inr (Some user_id) \<Rightarrow>
                  (case insert_user_configs now_configs w conn user_id
                          '''' ''[END TO END]'' 10 '''' default_messages of
                     Inl (e, conn) \<Rightarrow> Inl (e, conn, w)
                   | Inr conn \<Rightarrow>
                       (case commit conn w of (conn, w) \<Rightarrow> Inr (close conn w)))))"

definition create_user ::
  "(string \<Rightarrow> string) \<Rightarrow> timestamp \<Rightarrow> timestamp \<Rightarrow> world \<Rightarrow> string \<Rightarrow> string
     \<Rightarrow> world \<times> bool \<times> string" where
  "create_user sha256_hex now_users now_configs w username password =
     (case create_user_try sha256_hex now_users now_configs w username password of
        Inr w' \<Rightarrow> (w', True, ''Account created successfully!'')
      | Inl (IntegrityError m, conn, w') \<Rightarrow>
          (leave_open conn w', False, ''Username already exists!'')
      | Inl (e, conn, w') \<Rightarrow> (leave_open conn w', False, ''Error: '' @ exn_message e))"

definition verify_user_try ::
  "(string \<Rightarrow> string) \<Rightarrow> world \<Rightarrow> string \<Rightarrow> string \<Rightarrow> exn + int option" where
  "verify_user_try sha256_hex w username password =
     (let password_hash = sha256_hex password;
          conn = get_db_connection w
      in select_id_by_credentials conn username password_hash)"

definition verify_user :: "(string \<Rightarrow> string) \<Rightarrow> world \<Rightarrow> string \<Rightarrow> string \<Rightarrow> int option" where
  "verify_user sha256_hex w username password =
     (case verify_user_try sha256_hex w username password of
        Inr user \<Rightarrow> user
      | Inl e \<Rightarrow> None)"


definition update_user_config ::
  "timestamp \<Rightarrow> world \<Rightarrow> int \<Rightarrow> string \<Rightarrow> string \<Rightarrow> int \<Rightarrow> string \<Rightarrow> string \<Rightarrow> world \<times> bool" where
  "update_user_config now w user_id chat name_pre dly cook msgs =
     (let conn = get_db_connection w
      in case update_config_fields now w conn chat name_pre dly cook msgs user_id of
           Inr conn \<Rightarrow> (case commit conn w of (conn, w) \<Rightarrow> (close conn w, True))
         | Inl (e, conn) \<Rightarrow> (leave_open conn w, False))"

definition set_automation_running :: "world \<Rightarrow> int \<Rightarrow> bool \<Rightarrow> world \<times> bool" where
  "set_automation_running w user_id running =
     (let conn = get_db_connection w
      in case update_config_running w conn (if running then 1 else 0) user_id of
           Inr conn \<Rightarrow> (case commit conn w of (conn, w) \<Rightarrow> (close conn w, True))
         | Inl (e, conn) \<Rightarrow> (leave_open conn w, False))"


definition get_username :: "world \<Rightarrow> int \<Rightarrow> string option" where
  "get_username w user_id =
     (case select_username (get_db_connection w) user_id of
        Inr user \<Rightarrow> user
      | Inl e \<Rightarrow> None)"

definition set_admin_e2ee_thread_id_try ::
  "timestamp \<Rightarrow> world \<Rightarrow> int \<Rightarrow> string \<Rightarrow> string \<Rightarrow> string \<Rightarrow> exn \<times> conn \<times> world + world" where
  "set_admin_e2ee_thread_id_try now w user_id thread cook ctype =
     (let conn = get_db_connection w
      in case select_thread conn user_id of
           Inl e \<Rightarrow> Inl (e, conn, w)
         | Inr (Some existing) \<Rightarrow>
             (case update_thread now w conn thread cook ctype user_id of
                Inl (e, conn) \<Rightarrow> Inl (e, conn, w)
              | Inr conn \<Rightarrow> (case commit conn w of (conn, w) \<Rightarrow> Inr (close conn w)))
         | Inr None \<Rightarrow>
             (case insert_thread now w conn user_id thread cook ctype of
                Inl (e, conn) \<Rightarrow> Inl (e, conn, w)
              | Inr conn \<Rightarrow> (case commit conn w of (conn, w) \<Rightarrow> Inr (close conn w))))"

definition set_admin_e2ee_thread_id ::
  "timestamp \<Rightarrow> world \<Rightarrow> int \<Rightarrow> string \<Rightarrow> string \<Rightarrow> string \<Rightarrow> world \<times> bool" where
  "set_admin_e2ee_thread_id now w user_id thread cook ctype =
     (case set_admin_e2ee_thread_id_try now w user_id thread cook ctype of
        Inr w' \<Rightarrow> (w', True)
      | Inl (e, conn, w') \<Rightarrow> (leave_open conn w', False))"


section \<open>Sequences of calls\<close>

text \<open>
  A caller of the module is a list of calls, among which the garbage collector may run
  at any point. \<open>perform\<close> makes one call and keeps the store it leaves; the calls that
  only read leave the store they were given. \<^verbatim>\<open>init_db\<close> has no \<^verbatim>\<open>except\<close> clause: its
  exception reaches the caller, and its connection is left open like the others.
\<close>

datatype call =
    InitDb
  | CreateUser timestamp timestamp string string
  | VerifyUser string string
  | GetUserConfig int
  | UpdateUserConfig timestamp int string string int string string
  | SetAutomationRunning int bool
  | GetAutomationRunning int
  | GetUsername int
  | SetAdminThread timestamp int string string string
  | GetAdminThread int
  | Collect

fun perform :: "(string \<Rightarrow> string) \<Rightarrow> world \<Rightarrow> call \<Rightarrow> world" where
  "perform sha256_hex w InitDb =
     (case init_db w of Inr w' \<Rightarrow> w' | Inl (e, conn, w') \<Rightarrow> leave_open conn w')"
| "perform sha256_hex w (CreateUser now_users now_configs username password) =
     fst (create_user sha256_hex now_users now_configs w username password)"
| "perform sha256_hex w (VerifyUser username password) = w"
| "perform sha256_hex w (GetUserConfig user_id) = w"
| "perform sha256_hex w (UpdateUserConfig now user_id chat name_pre dly cook msgs) =
     fst (update_user_config now w user_id chat name_pre dly cook msgs)"
| "perform sha256_hex w (SetAutomationRunning user_id running) =
     fst (set_automation_running w user_id running)"
| "perform sha256_hex w (GetAutomationRunning user_id) = w"
| "perform sha256_hex w (GetUsername user_id) = w"
| "perform sha256_hex w (SetAdminThread now user_id thread cook ctype) =
     fst (set_admin_e2ee_thread_id now w user_id thread cook ctype)"
| "perform sha256_hex w (GetAdminThread user_id) = w"
| "perform sha256_hex w Collect = collect w"

definition run :: "(string \<Rightarrow> string) \<Rightarrow> world \<Rightarrow> call list \<Rightarrow> world" where
  "run sha256_hex w calls = foldl (perform sha256_hex) w calls"

section \<open>Reading a database\<close>

definition usernames :: "db \<Rightarrow> string set" where
  "usernames d = (case users d of None \<Rightarrow> {} | Some us \<Rightarrow> set (map u_username us))"

definition user_rows_of :: "db \<Rightarrow> string \<Rightarrow> user_row list" where
  "user_rows_of d username =
     (case users d of None \<Rightarrow> [] | Some us \<Rightarrow> filter (\<lambda>r. u_username r = username) us)"

definition config_rows_of :: "db \<Rightarrow> int \<Rightarrow> config_row list" where
  "config_rows_of d user_id =
     (case user_configs d of None \<Rightarrow> []
      | Some cs \<Rightarrow> filter (\<lambda>r. c_user_id r = user_id) cs)"


definition tables_exist :: "db \<Rightarrow> bool" where
  "tables_exist d \<longleftrightarrow>
     users d \<noteq> None \<and> user_configs d \<noteq> None \<and> admin_threads d \<noteq> None"


section \<open>Well-formed databases\<close>

text \<open>
  What SQLite and the module together keep true of the file: the three tables exist,
  the primary keys and the usernames are unique, every configuration row belongs to a
  user, and the row identifiers are 64-bit integers.
\<close>

definition threads_unique :: "db \<Rightarrow> bool" where
  "threads_unique d =
     (case admin_threads d of None \<Rightarrow> True | Some ts \<Rightarrow> distinct (map a_user_id ts))"

definition well_formed :: "db \<Rightarrow> bool" where
  "well_formed d =
     (case users d of None \<Rightarrow> False | Some us \<Rightarrow>
      (case user_configs d of None \<Rightarrow> False | Some cs \<Rightarrow>
       (case admin_threads d of None \<Rightarrow> False | Some ts \<Rightarrow>
          distinct (map u_id us) \<and> distinct (map u_username us) \<and>
          distinct (map c_user_id cs) \<and> distinct (map a_user_id ts) \<and>
          set (map c_user_id cs) \<subseteq> set (map u_id us) \<and>
          list_all is_int64 (map u_id us) \<and> is_int64 (users_seq d))))"

text \<open>The key space of \<^verbatim>\<open>users\<close> is not exhausted: a row identifier can be allocated.\<close>

definition room :: "db \<Rightarrow> bool" where
  "room d =
     (case users d of None \<Rightarrow> False
      | Some us \<Rightarrow> (case new_rowid (users_seq d) (map u_id us) of
                     Inl e \<Rightarrow> False | Inr rid \<Rightarrow> True))"

text \<open>Every user row has a configuration row.\<close>

definition no_orphans :: "db \<Rightarrow> bool" where
  "no_orphans d =
     (case users d of None \<Rightarrow> True
      | Some us \<Rightarrow> list_all (\<lambda>u. config_rows_of d (u_id u) \<noteq> []) us)"

section \<open>Example stores\<close>

text \<open>
  \<open>store_alice\<close> is the file after \<^verbatim>\<open>create_user('alice', 'secret')\<close> on a new file,
  \<open>store_bob\<close> the file after \<^verbatim>\<open>create_user('bob', 'pw')\<close> on that, both with the
  identity in place of the digest. \<open>store_orphan\<close> is not well-formed: it holds a
  configuration row of a user that does not exist. \<open>at_rest\<close> is a store with no
  connection left open, and \<open>conn_alice\<close> the connection that a refused duplicate of
  alice leaves open on \<open>store_alice\<close>.
\<close>

definition at_rest :: "db \<Rightarrow> world" where
  "at_rest d = \<lparr>disk = d, open_conns = []\<rparr>"

definition store_alice :: db where
  "store_alice =
     \<lparr>users = Some [\<lparr>u_id = 1, u_username = ''alice'', u_password_hash = ''secret'',
                      u_created_at = ''t0'', u_is_active = 1\<rparr>],
      users_seq = 1,
      user_configs = Some [\<lparr>c_user_id = 1, c_chat_id = '''', c_name_prefix = ''[END TO END]'',
                             c_delay = 10, c_cookies = '''', c_messages = default_messages,
                             c_automation_running = 0, c_updated_at = ''t0''\<rparr>],
      admin_threads = Some []\<rparr>"

definition store_bob :: db where
  "store_bob =
     \<lparr>users = Some [\<lparr>u_id = 1, u_username = ''alice'', u_password_hash = ''secret'',
                      u_created_at = ''t0'', u_is_active = 1\<rparr>,
                    \<lparr>u_id = 2, u_username = ''bob'', u_password_hash = ''pw'',
                      u_created_at = ''t1'', u_is_active = 1\<rparr>],
      users_seq = 2,
      user_configs = Some [\<lparr>c_user_id = 1, c_chat_id = '''', c_name_prefix = ''[END TO END]'',
                             c_delay = 10, c_cookies = '''', c_messages = default_messages,
                             c_automation_running = 0, c_updated_at = ''t0''\<rparr>,
                           \<lparr>c_user_id = 2, c_chat_id = '''', c_name_prefix = ''[END TO END]'',
                             c_delay = 10, c_cookies = '''', c_messages = default_messages,
                             c_automation_running = 0, c_updated_at = ''t2''\<rparr>],
      admin_threads = Some []\<rparr>"

definition store_orphan :: db where
  "store_orphan =
     \<lparr>users = Some [], users_seq = 0,
      user_configs = Some [\<lparr>c_user_id = 1, c_chat_id = ''x'', c_name_prefix = ''y'',
                             c_delay = 3, c_cookies = ''z'', c_messages = ''m'',
                             c_automation_running = 0, c_updated_at = ''t0''\<rparr>],
      admin_threads = Some []\<rparr>"

definition conn_orphan :: conn where
  "conn_orphan =
     \<lparr>view = store_orphan\<lparr>users := Some [\<lparr>u_id = 1, u_username = ''bob'',
                                            u_password_hash = ''pw'',
                                            u_created_at = ''t1'', u_is_active = 1\<rparr>],
                          users_seq := 1\<rparr>,
      writing = True\<rparr>"

definition conn_alice :: conn where
  "conn_alice = \<lparr>view = store_alice, writing = True\<rparr>"

section \<open>Rows and keys\<close>


lemma find_found: "find P xs = Some x \<Longrightarrow> P x \<and> x \<in> set xs"
  by (induction xs) (auto split: if_splits)

lemma find_unique:
  assumes "distinct (map f xs)" and "r \<in> set xs" and "P r" and "\<And>x. P x \<Longrightarrow> f x = f r"
  shows "find P xs = Some r"
  using assms(1,2)
proof (induction xs)
  case Nil
  then show ?case by simp
next
  case (Cons x xs)
  show ?case
  proof (cases "x = r")
    case True
    then show ?thesis using assms(3) by simp
  next
    case False
    with Cons.prems have r: "r \<in> set xs" by simp
    have "\<not> P x"
    proof
      assume "P x"
      then have "f x = f r" by (rule assms(4))
      with Cons.prems(1) r show False by (auto simp: image_iff)
    qed
    with Cons r show ?thesis by simp
  qed
qed

lemma filter_key_absent: "k \<notin> set (map key rows) \<Longrightarrow> filter (\<lambda>r. key r = k) rows = []"
  by (induction rows) auto






section \<open>Allocation of row identifiers\<close>

lemma largest_None: "largest xs = None \<longleftrightarrow> xs = []"
  by (cases xs) (auto split: option.splits)

lemma largest_ge: "largest xs = Some m \<Longrightarrow> x \<in> set xs \<Longrightarrow> x \<le> m"
  by (induction xs arbitrary: m) (auto split: option.splits simp: largest_None)

lemma new_rowid_notin: "new_rowid seq ids = Inr rid \<Longrightarrow> rid \<notin> set ids"
  by (auto simp: new_rowid_def largest_None split: option.splits if_splits dest: largest_ge)

lemma new_rowid_above_seq: "new_rowid seq ids = Inr rid \<Longrightarrow> seq < rid"
  by (auto simp: new_rowid_def split: option.splits if_splits)

lemma new_rowid_int64:
  "new_rowid seq ids = Inr rid \<Longrightarrow> is_int64 seq \<Longrightarrow> is_int64 rid"
  by (auto simp: new_rowid_def is_int64_def max_rowid_def split: option.splits if_splits)

section \<open>What \<^verbatim>\<open>create_user\<close> does\<close>

lemmas conn_defs = get_db_connection_def write_lock_def commit_def close_def leave_open_def

lemma create_user_try_fresh:
  assumes "well_formed (disk w)" and "room (disk w)" and "\<not> locked w"
    and "username \<notin> usernames (disk w)"
  shows "\<exists>us cs rid. users (disk w) = Some us \<and> user_configs (disk w) = Some cs
           \<and> new_rowid (users_seq (disk w)) (map u_id us) = Inr rid
           \<and> rid \<notin> set (map u_id us) \<and> rid \<notin> set (map c_user_id cs) \<and> is_int64 rid
           \<and> create_user_try H now1 now2 w username password =
               Inr (w\<lparr>disk := (disk w)\<lparr>users := Some (us @ [\<lparr>u_id = rid, u_username = username,
                                            u_password_hash = H password,
                                            u_created_at = now1, u_is_active = 1\<rparr>]),
                      users_seq := rid,
                      user_configs := Some (cs @ [\<lparr>c_user_id = rid, c_chat_id = '''',
                           c_name_prefix = ''[END TO END]'', c_delay = 10, c_cookies = '''',
                           c_messages = default_messages, c_automation_running = 0,
                           c_updated_at = now2\<rparr>])\<rparr>\<rparr>)"
proof -
  from assms(1) obtain us cs ts where t: "users (disk w) = Some us"
      "user_configs (disk w) = Some cs" "admin_threads (disk w) = Some ts"
    and sub: "set (map c_user_id cs) \<subseteq> set (map u_id us)"
    and i64: "is_int64 (users_seq (disk w))"
    by (auto simp: well_formed_def split: option.splits)
  from assms(2) t obtain rid where
    rid: "new_rowid (users_seq (disk w)) (map u_id us) = Inr rid"
    by (auto simp: room_def split: sum.splits)
  have n1: "rid \<notin> set (map u_id us)" using rid by (rule new_rowid_notin)
  have n2: "rid \<notin> set (map c_user_id cs)" using n1 sub by blast
  have r64: "is_int64 rid" using rid i64 by (rule new_rowid_int64)
  have fresh: "username \<notin> set (map u_username us)"
    using assms(4) t by (simp add: usernames_def)
  let ?row = "\<lparr>u_id = rid, u_username = username, u_password_hash = H password,
               u_created_at = now1, u_is_active = 1\<rparr>"
  let ?c1 = "\<lparr>view = (disk w)\<lparr>users := Some (us @ [?row]), users_seq := rid\<rparr>,
              writing = True\<rparr>"
  have ins: "insert_users now1 w (get_db_connection w) (Some username) (Some (H password))
               = Inr ?c1"
    using t rid fresh assms(3) by (simp add: insert_users_def conn_defs)
  have fnd: "find (\<lambda>r. u_username r = username) (us @ [?row]) = Some ?row"
    using fresh by (induction us) auto
  have sel: "select_id_by_username ?c1 username = Inr (Some rid)"
    by (simp add: select_id_by_username_def fnd)
  have ten: "is_int64 10" by (simp add: is_int64_def max_rowid_def)
  have cfg: "insert_user_configs now2 w ?c1 rid '''' ''[END TO END]'' 10 '''' default_messages
      = Inr (?c1\<lparr>view := (view ?c1)\<lparr>user_configs := Some (cs @ [\<lparr>c_user_id = rid,
                           c_chat_id = '''',
                           c_name_prefix = ''[END TO END]'', c_delay = 10, c_cookies = '''',
                           c_messages = default_messages, c_automation_running = 0,
                           c_updated_at = now2\<rparr>])\<rparr>\<rparr>)"
    using t n2 r64 ten by (simp add: insert_user_configs_def bind_int_def conn_defs)
  have "create_user_try H now1 now2 w username password =
               Inr (w\<lparr>disk := (disk w)\<lparr>users := Some (us @ [?row]),
                      users_seq := rid,
                      user_configs := Some (cs @ [\<lparr>c_user_id = rid, c_chat_id = '''',
                           c_name_prefix = ''[END TO END]'', c_delay = 10, c_cookies = '''',
                           c_messages = default_messages, c_automation_running = 0,
                           c_updated_at = now2\<rparr>])\<rparr>\<rparr>)"
    unfolding create_user_try_def Let_def ins
    by (simp add: sel cfg) (simp add: conn_defs)
  with t rid n1 n2 r64 show ?thesis by blast
qed

lemma insert_users_Inl:
  "insert_users now w (get_db_connection w) (Some username) (Some h) = Inl (e, conn)
   \<Longrightarrow> view conn = disk w"
  by (auto simp: insert_users_def conn_defs split: option.splits sum.splits if_splits)

lemma insert_users_Inr:
  assumes "insert_users now w (get_db_connection w) (Some username) (Some h) = Inr conn1"
  shows "\<exists>us rid. users (disk w) = Some us \<and> \<not> locked w
           \<and> username \<notin> set (map u_username us)
           \<and> new_rowid (users_seq (disk w)) (map u_id us) = Inr rid
           \<and> conn1 = \<lparr>view = (disk w)\<lparr>users := Some (us @ [\<lparr>u_id = rid, u_username = username,
                                            u_password_hash = h,
                                            u_created_at = now, u_is_active = 1\<rparr>]),
                                     users_seq := rid\<rparr>,
                       writing = True\<rparr>"
  using assms
  by (auto simp: insert_users_def conn_defs split: option.splits sum.splits if_splits)

lemma select_id_after_insert:
  assumes "username \<notin> set (map u_username us)"
  shows "select_id_by_username
           \<lparr>view = d\<lparr>users := Some (us @ [\<lparr>u_id = rid, u_username = username,
                                            u_password_hash = h,
                                            u_created_at = now, u_is_active = 1\<rparr>]),
                     users_seq := rid\<rparr>,
            writing = True\<rparr> username = Inr (Some rid)"
proof -
  have "find (\<lambda>r. u_username r = username) (us @ [\<lparr>u_id = rid, u_username = username,
                                            u_password_hash = h,
                                            u_created_at = now, u_is_active = 1\<rparr>])
     = Some \<lparr>u_id = rid, u_username = username, u_password_hash = h,
             u_created_at = now, u_is_active = 1\<rparr>"
    using assms by (induction us) auto
  then show ?thesis by (simp add: select_id_by_username_def)
qed

lemma create_user_try_Inl:
  "create_user_try H now1 now2 w username password = Inl (e, conn, w') \<Longrightarrow> w' = w"
  by (auto simp: create_user_try_def Let_def commit_def close_def
      split: sum.splits option.splits prod.splits if_splits)

lemma create_user_try_Inr:
  assumes "create_user_try H now1 now2 w username password = Inr w'"
  shows "\<exists>us cs rid. users (disk w) = Some us \<and> user_configs (disk w) = Some cs
           \<and> \<not> locked w
           \<and> username \<notin> set (map u_username us)
           \<and> new_rowid (users_seq (disk w)) (map u_id us) = Inr rid
           \<and> rid \<notin> set (map c_user_id cs) \<and> is_int64 rid
           \<and> w' = w\<lparr>disk := (disk w)\<lparr>users := Some (us @ [\<lparr>u_id = rid, u_username = username,
                                            u_password_hash = H password,
                                            u_created_at = now1, u_is_active = 1\<rparr>]),
                      users_seq := rid,
                      user_configs := Some (cs @ [\<lparr>c_user_id = rid, c_chat_id = '''',
                           c_name_prefix = ''[END TO END]'', c_delay = 10, c_cookies = '''',
                           c_messages = default_messages, c_automation_running = 0,
                           c_updated_at = now2\<rparr>])\<rparr>\<rparr>"
proof -
  from assms obtain c1 where
    c1: "insert_users now1 w (get_db_connection w) (Some username) (Some (H password)) = Inr c1"
    by (auto simp: create_user_try_def Let_def split: sum.splits prod.splits)
  from insert_users_Inr[OF c1] obtain us rid where us: "users (disk w) = Some us"
      and nl: "\<not> locked w"
      and rid: "new_rowid (users_seq (disk w)) (map u_id us) = Inr rid"
      and fresh: "username \<notin> set (map u_username us)"
      and c1_eq: "c1 = \<lparr>view = (disk w)\<lparr>users := Some (us @ [\<lparr>u_id = rid,
                                            u_username = username,
                                            u_password_hash = H password,
                                            u_created_at = now1, u_is_active = 1\<rparr>]),
                                     users_seq := rid\<rparr>,
                       writing = True\<rparr>"
    by blast
  have sel: "select_id_by_username c1 username = Inr (Some rid)"
    unfolding c1_eq using fresh by (rule select_id_after_insert)
  from assms c1 sel obtain c2 where
    c2: "insert_user_configs now2 w c1 rid '''' ''[END TO END]'' 10 '''' default_messages = Inr c2"
    and w': "w' = close (fst (commit c2 w)) (snd (commit c2 w))"
    by (auto simp: create_user_try_def Let_def split: sum.splits prod.splits)
  from c2 obtain cs where cs: "user_configs (disk w) = Some cs"
     and n2: "rid \<notin> set (map c_user_id cs)"
     and r64: "is_int64 rid"
     and c2_eq: "c2 = c1\<lparr>view := (view c1)\<lparr>user_configs := Some (cs @ [\<lparr>c_user_id = rid,
                           c_chat_id = '''',
                           c_name_prefix = ''[END TO END]'', c_delay = 10, c_cookies = '''',
                           c_messages = default_messages, c_automation_running = 0,
                           c_updated_at = now2\<rparr>])\<rparr>\<rparr>"
    by (auto simp: insert_user_configs_def c1_eq bind_int_def conn_defs
        split: option.splits sum.splits if_splits)
  show ?thesis using us cs nl fresh rid n2 r64 w' c2_eq c1_eq by (simp add: conn_defs)
qed

lemma create_user_failed:
  "\<not> fst (snd (create_user H now1 now2 w username password)) \<Longrightarrow>
   \<exists>conn. fst (create_user H now1 now2 w username password) = leave_open conn w"
  by (auto simp: create_user_def split: sum.splits prod.splits exn.splits
      dest: create_user_try_Inl)

lemma create_user_disk_cases:
  "disk (fst (create_user H now1 now2 w username password)) = disk w
   \<or> create_user_try H now1 now2 w username password
       = Inr (fst (create_user H now1 now2 w username password))"
  by (auto simp: create_user_def leave_open_def split: sum.splits prod.splits exn.splits
      dest: create_user_try_Inl)

section \<open>What the other functions do\<close>

lemma update_user_config_ok:
  assumes "user_configs (disk w) = Some cs" and "is_int64 uid" and "is_int64 dly"
    and "\<not> locked w"
  shows "update_user_config now w uid chat pre dly cook msgs =
           (w\<lparr>disk := (disk w)\<lparr>user_configs := Some (map (\<lambda>r.
                  if c_user_id r = uid
                  then r\<lparr>c_chat_id := chat, c_name_prefix := pre, c_delay := dly,
                         c_cookies := cook, c_messages := msgs, c_updated_at := now\<rparr>
                  else r) cs)\<rparr>\<rparr>, True)"
  using assms
  by (simp add: update_user_config_def update_config_fields_def bind_int_def conn_defs Let_def)

lemma update_user_config_cases:
  "(\<exists>cs. user_configs (disk w) = Some cs \<and> is_int64 uid \<and> is_int64 dly \<and> \<not> locked w)
   \<or> update_user_config now w uid chat pre dly cook msgs
       = (leave_open (get_db_connection w) w, False)"
  by (auto simp: update_user_config_def update_config_fields_def bind_int_def conn_defs Let_def
      split: option.splits)

lemma set_automation_running_ok:
  assumes "user_configs (disk w) = Some cs" and "is_int64 uid" and "\<not> locked w"
  shows "set_automation_running w uid running =
           (w\<lparr>disk := (disk w)\<lparr>user_configs := Some (map (\<lambda>r.
                  if c_user_id r = uid
                  then r\<lparr>c_automation_running := (if running then 1 else 0)\<rparr>
                  else r) cs)\<rparr>\<rparr>, True)"
  using assms
  by (simp add: set_automation_running_def update_config_running_def bind_int_def conn_defs Let_def
      is_int64_def max_rowid_def)

lemma set_automation_running_cases:
  "(\<exists>cs. user_configs (disk w) = Some cs \<and> is_int64 uid \<and> \<not> locked w)
   \<or> set_automation_running w uid running = (leave_open (get_db_connection w) w, False)"
  by (auto simp: set_automation_running_def update_config_running_def bind_int_def conn_defs Let_def
      is_int64_def max_rowid_def split: option.splits)

lemma set_admin_ok:
  assumes "admin_threads (disk w) = Some ts" and "is_int64 uid" and "\<not> locked w"
  shows "set_admin_e2ee_thread_id now w uid t c ct =
           (w\<lparr>disk := (disk w)\<lparr>admin_threads := Some
                (if uid \<in> set (map a_user_id ts)
                 then map (\<lambda>r. if a_user_id r = uid
                                then r\<lparr>a_thread_id := t, a_cookies := c, a_chat_type := ct,
                                       a_created_at := now\<rparr>
                                else r) ts
                 else ts @ [\<lparr>a_user_id = uid, a_thread_id = t, a_cookies = c,
                              a_chat_type = ct, a_created_at = now\<rparr>])\<rparr>\<rparr>, True)"
proof (cases "find (\<lambda>r. a_user_id r = uid) ts")
  case None
  then have no: "uid \<notin> set (map a_user_id ts)" by (auto simp: find_None_iff)
  then show ?thesis using assms None
    by (simp add: set_admin_e2ee_thread_id_def set_admin_e2ee_thread_id_try_def
        select_thread_def insert_thread_def bind_int_def conn_defs Let_def)
next
  case (Some existing)
  then have "uid \<in> set (map a_user_id ts)" by (auto dest: find_found)
  then show ?thesis using assms Some
    by (simp add: set_admin_e2ee_thread_id_def set_admin_e2ee_thread_id_try_def
        select_thread_def update_thread_def bind_int_def conn_defs Let_def)
qed

lemma set_admin_cases:
  "(\<exists>ts. admin_threads (disk w) = Some ts \<and> is_int64 uid \<and> \<not> locked w)
   \<or> set_admin_e2ee_thread_id now w uid t c ct = (leave_open (get_db_connection w) w, False)"
  by (auto simp: set_admin_e2ee_thread_id_def set_admin_e2ee_thread_id_try_def
      select_thread_def update_thread_def insert_thread_def bind_int_def conn_defs Let_def
      split: option.splits)

lemma init_db_exists: "tables_exist (disk w) \<Longrightarrow> init_db w = Inr w"
  by (auto simp: tables_exist_def init_db_def create_table_if_not_exists_def conn_defs Let_def)

lemma init_db_unlocked:
  "\<not> locked w \<Longrightarrow>
   init_db w = Inr (w\<lparr>disk := (disk w)\<lparr>
       users := (case users (disk w) of None \<Rightarrow> Some [] | Some us \<Rightarrow> Some us),
       user_configs := (case user_configs (disk w) of None \<Rightarrow> Some [] | Some cs \<Rightarrow> Some cs),
       admin_threads := (case admin_threads (disk w) of None \<Rightarrow> Some [] | Some ts \<Rightarrow> Some ts)
     \<rparr>\<rparr>)"
  by (auto simp: init_db_def create_table_if_not_exists_def conn_defs Let_def locked_def
      split: option.splits)

lemma init_db_Inr:
  "init_db w = Inr w' \<Longrightarrow>
   w' = w\<lparr>disk := (disk w)\<lparr>
       users := (case users (disk w) of None \<Rightarrow> Some [] | Some us \<Rightarrow> Some us),
       user_configs := (case user_configs (disk w) of None \<Rightarrow> Some [] | Some cs \<Rightarrow> Some cs),
       admin_threads := (case admin_threads (disk w) of None \<Rightarrow> Some [] | Some ts \<Rightarrow> Some ts)
     \<rparr>\<rparr>"
  by (auto simp: init_db_def create_table_if_not_exists_def conn_defs Let_def locked_def
      split: option.splits if_splits)

lemma init_db_Inl: "init_db w = Inl (e, conn, w') \<Longrightarrow> w' = w"
  by (auto simp: init_db_def create_table_if_not_exists_def conn_defs Let_def locked_def
      split: option.splits if_splits)

section \<open>What a call can do to the file\<close>

lemma disk_create_user:
  "disk (fst (create_user H now1 now2 w username password)) = disk w
   \<or> (\<exists>us cs rid. users (disk w) = Some us \<and> user_configs (disk w) = Some cs
         \<and> username \<notin> set (map u_username us)
         \<and> new_rowid (users_seq (disk w)) (map u_id us) = Inr rid
         \<and> rid \<notin> set (map c_user_id cs) \<and> is_int64 rid
         \<and> disk (fst (create_user H now1 now2 w username password)) =
             (disk w)\<lparr>users := Some (us @ [\<lparr>u_id = rid, u_username = username,
                                            u_password_hash = H password,
                                            u_created_at = now1, u_is_active = 1\<rparr>]),
                      users_seq := rid,
                      user_configs := Some (cs @ [\<lparr>c_user_id = rid, c_chat_id = '''',
                           c_name_prefix = ''[END TO END]'', c_delay = 10, c_cookies = '''',
                           c_messages = default_messages, c_automation_running = 0,
                           c_updated_at = now2\<rparr>])\<rparr>)"
proof (cases "disk (fst (create_user H now1 now2 w username password)) = disk w")
  case True
  then show ?thesis by simp
next
  case False
  with create_user_disk_cases[of H now1 now2 w username password]
  have t: "create_user_try H now1 now2 w username password
       = Inr (fst (create_user H now1 now2 w username password))" by simp
  from create_user_try_Inr[OF t] show ?thesis by auto
qed

lemma disk_update_user_config:
  "disk (fst (update_user_config now w uid chat pre dly cook msgs)) = disk w
   \<or> (\<exists>cs. user_configs (disk w) = Some cs
         \<and> disk (fst (update_user_config now w uid chat pre dly cook msgs)) =
             (disk w)\<lparr>user_configs := Some (map (\<lambda>r.
                  if c_user_id r = uid
                  then r\<lparr>c_chat_id := chat, c_name_prefix := pre, c_delay := dly,
                         c_cookies := cook, c_messages := msgs, c_updated_at := now\<rparr>
                  else r) cs)\<rparr>)"
  using update_user_config_cases[of w uid dly now chat pre cook msgs]
  by (auto simp: update_user_config_ok leave_open_def)

lemma disk_set_automation_running:
  "disk (fst (set_automation_running w uid running)) = disk w
   \<or> (\<exists>cs. user_configs (disk w) = Some cs
         \<and> disk (fst (set_automation_running w uid running)) =
             (disk w)\<lparr>user_configs := Some (map (\<lambda>r.
                  if c_user_id r = uid
                  then r\<lparr>c_automation_running := (if running then 1 else 0)\<rparr>
                  else r) cs)\<rparr>)"
  using set_automation_running_cases[of w uid running]
  by (auto simp: set_automation_running_ok leave_open_def)

lemma disk_set_admin:
  "disk (fst (set_admin_e2ee_thread_id now w uid t c ct)) = disk w
   \<or> (\<exists>ts. admin_threads (disk w) = Some ts \<and> is_int64 uid
         \<and> disk (fst (set_admin_e2ee_thread_id now w uid t c ct)) =
             (disk w)\<lparr>admin_threads := Some
                (if uid \<in> set (map a_user_id ts)
                 then map (\<lambda>r. if a_user_id r = uid
                                then r\<lparr>a_thread_id := t, a_cookies := c, a_chat_type := ct,
                                       a_created_at := now\<rparr>
                                else r) ts
                 else ts @ [\<lparr>a_user_id = uid, a_thread_id = t, a_cookies = c,
                              a_chat_type = ct, a_created_at = now\<rparr>])\<rparr>)"
  using set_admin_cases[of w uid now t c ct]
  by (auto simp: set_admin_ok leave_open_def)

lemma disk_init_db:
  "disk (case init_db w of Inr w' \<Rightarrow> w' | Inl (e, conn, w') \<Rightarrow> leave_open conn w') = disk w
   \<or> disk (case init_db w of Inr w' \<Rightarrow> w' | Inl (e, conn, w') \<Rightarrow> leave_open conn w') =
       (disk w)\<lparr>
         users := (case users (disk w) of None \<Rightarrow> Some [] | Some us \<Rightarrow> Some us),
         user_configs := (case user_configs (disk w) of None \<Rightarrow> Some [] | Some cs \<Rightarrow> Some cs),
         admin_threads :=
           (case admin_threads (disk w) of None \<Rightarrow> Some [] | Some ts \<Rightarrow> Some ts)\<rparr>"
proof (cases "init_db w")
  case (Inl a)
  then obtain e conn w' where a: "a = (e, conn, w')" by (cases a) auto
  with Inl have "w' = w" by (auto dest: init_db_Inl)
  with Inl a show ?thesis by (simp add: leave_open_def)
next
  case (Inr w')
  from init_db_Inr[OF Inr] Inr show ?thesis by simp
qed

lemma map_config_ids:
  "map c_user_id (map (\<lambda>r. if c_user_id r = uid then g r else r) cs) = map c_user_id cs"
  if "\<And>r. c_user_id (g r) = c_user_id r"
  using that by (induction cs) auto

lemma map_thread_ids:
  "map a_user_id (map (\<lambda>r. if a_user_id r = uid then g r else r) ts) = map a_user_id ts"
  if "\<And>r. a_user_id (g r) = a_user_id r"
  using that by (induction ts) auto

section \<open>What every call keeps\<close>

lemma well_formed_update_configs:
  assumes "well_formed d" and "user_configs d = Some cs"
    and "\<And>r. c_user_id (g r) = c_user_id r"
  shows "well_formed (d\<lparr>user_configs :=
           Some (map (\<lambda>r. if c_user_id r = uid then g r else r) cs)\<rparr>)"
proof -
  have m: "map c_user_id (map (\<lambda>r. if c_user_id r = uid then g r else r) cs)
             = map c_user_id cs"
    by (rule map_config_ids) (rule assms(3))
  show ?thesis
    using assms(1,2) unfolding well_formed_def
    by (simp split: option.splits del: map_map set_map add: m)
qed

lemma threads_unique_upsert:
  assumes "threads_unique d" and "admin_threads d = Some ts"
  shows "threads_unique (d\<lparr>admin_threads := Some
           (if uid \<in> set (map a_user_id ts)
            then map (\<lambda>r. if a_user_id r = uid
                           then r\<lparr>a_thread_id := t, a_cookies := c, a_chat_type := ct,
                                  a_created_at := now\<rparr>
                           else r) ts
            else ts @ [\<lparr>a_user_id = uid, a_thread_id = t, a_cookies = c,
                         a_chat_type = ct, a_created_at = now\<rparr>])\<rparr>)"
proof -
  have m: "map a_user_id (map (\<lambda>r. if a_user_id r = uid
                           then r\<lparr>a_thread_id := t, a_cookies := c, a_chat_type := ct,
                                  a_created_at := now\<rparr>
                           else r) ts) = map a_user_id ts"
    by (rule map_thread_ids) simp
  from assms have d: "distinct (map a_user_id ts)" by (simp add: threads_unique_def)
  show ?thesis
  proof (cases "uid \<in> set (map a_user_id ts)")
    case True
    then show ?thesis using d unfolding threads_unique_def
      by (simp del: map_map set_map add: m)
  next
    case False
    then show ?thesis using d unfolding threads_unique_def by simp
  qed
qed

lemma well_formed_threads: "well_formed d \<Longrightarrow> threads_unique d"
  by (auto simp: well_formed_def threads_unique_def split: option.splits)

lemma well_formed_tables: "well_formed d \<Longrightarrow> tables_exist d"
  by (auto simp: well_formed_def tables_exist_def split: option.splits)

lemma well_formed_upsert:
  assumes "well_formed d" and "admin_threads d = Some ts"
  shows "well_formed (d\<lparr>admin_threads := Some
           (if uid \<in> set (map a_user_id ts)
            then map (\<lambda>r. if a_user_id r = uid
                           then r\<lparr>a_thread_id := t, a_cookies := c, a_chat_type := ct,
                                  a_created_at := now\<rparr>
                           else r) ts
            else ts @ [\<lparr>a_user_id = uid, a_thread_id = t, a_cookies = c,
                         a_chat_type = ct, a_created_at = now\<rparr>])\<rparr>)"
    (is "well_formed ?d'")
proof -
  have "threads_unique ?d'"
    using well_formed_threads[OF assms(1)] assms(2) by (rule threads_unique_upsert)
  then show ?thesis using assms(1)
    by (auto simp: well_formed_def threads_unique_def split: option.splits if_splits)
qed

lemma well_formed_create_user:
  assumes "well_formed (disk w)"
  shows "well_formed (disk (fst (create_user H now1 now2 w username password)))"
  using disk_create_user[of H now1 now2 w username password]
proof
  assume "disk (fst (create_user H now1 now2 w username password)) = disk w"
  with assms show ?thesis by simp
next
  assume "\<exists>us cs rid. users (disk w) = Some us \<and> user_configs (disk w) = Some cs
         \<and> username \<notin> set (map u_username us)
         \<and> new_rowid (users_seq (disk w)) (map u_id us) = Inr rid
         \<and> rid \<notin> set (map c_user_id cs) \<and> is_int64 rid
         \<and> disk (fst (create_user H now1 now2 w username password)) =
             (disk w)\<lparr>users := Some (us @ [\<lparr>u_id = rid, u_username = username,
                                            u_password_hash = H password,
                                            u_created_at = now1, u_is_active = 1\<rparr>]),
                      users_seq := rid,
                      user_configs := Some (cs @ [\<lparr>c_user_id = rid, c_chat_id = '''',
                           c_name_prefix = ''[END TO END]'', c_delay = 10, c_cookies = '''',
                           c_messages = default_messages, c_automation_running = 0,
                           c_updated_at = now2\<rparr>])\<rparr>"
  then obtain us cs rid where
    h: "users (disk w) = Some us" "user_configs (disk w) = Some cs"
       "username \<notin> set (map u_username us)"
       "new_rowid (users_seq (disk w)) (map u_id us) = Inr rid"
       "rid \<notin> set (map c_user_id cs)" "is_int64 rid"
    and d: "disk (fst (create_user H now1 now2 w username password)) =
             (disk w)\<lparr>users := Some (us @ [\<lparr>u_id = rid, u_username = username,
                                            u_password_hash = H password,
                                            u_created_at = now1, u_is_active = 1\<rparr>]),
                      users_seq := rid,
                      user_configs := Some (cs @ [\<lparr>c_user_id = rid, c_chat_id = '''',
                           c_name_prefix = ''[END TO END]'', c_delay = 10, c_cookies = '''',
                           c_messages = default_messages, c_automation_running = 0,
                           c_updated_at = now2\<rparr>])\<rparr>"
    by blast
  have n1: "rid \<notin> set (map u_id us)" using h(4) by (rule new_rowid_notin)
  show ?thesis
    using assms h n1 unfolding d by (auto simp: well_formed_def split: option.splits)
qed

lemma well_formed_update_user_config:
  assumes "well_formed (disk w)"
  shows "well_formed (disk (fst (update_user_config now w uid chat pre dly cook msgs)))"
  using disk_update_user_config[of now w uid chat pre dly cook msgs] assms
  by (auto simp: well_formed_update_configs)

lemma well_formed_set_automation_running:
  assumes "well_formed (disk w)"
  shows "well_formed (disk (fst (set_automation_running w uid running)))"
  using disk_set_automation_running[of w uid running] assms
  by (auto simp: well_formed_update_configs)

lemma well_formed_set_admin:
  assumes "well_formed (disk w)"
  shows "well_formed (disk (fst (set_admin_e2ee_thread_id now w uid t c ct)))"
  using disk_set_admin[of now w uid t c ct] assms
  by (auto simp: well_formed_upsert simp del: set_map)

lemma perform_init_db_exists:
  "tables_exist (disk w) \<Longrightarrow> perform H w InitDb = w"
  by (simp add: init_db_exists)

lemma well_formed_perform: "well_formed (disk w) \<Longrightarrow> well_formed (disk (perform H w c))"
  by (cases c) (simp_all add: well_formed_create_user well_formed_update_user_config
      well_formed_set_automation_running well_formed_set_admin init_db_exists
      well_formed_tables collect_def)

lemma well_formed_run: "well_formed (disk w) \<Longrightarrow> well_formed (disk (run H w cs))"
  unfolding run_def by (induction cs arbitrary: w) (simp_all add: well_formed_perform)

lemma init_db_fresh:
  "init_db fresh = Inr (at_rest \<lparr>users = Some [], users_seq = 0, user_configs = Some [],
                                 admin_threads = Some []\<rparr>)"
  by (simp add: init_db_def fresh_def at_rest_def create_table_if_not_exists_def conn_defs
      locked_def)

lemma well_formed_init_fresh: "well_formed (disk (perform H fresh InitDb))"
  by (simp add: init_db_fresh at_rest_def well_formed_def is_int64_def max_rowid_def)

text \<open>Every file that calls of the module make out of a new file is well-formed.\<close>

lemma well_formed_reachable: "well_formed (disk (run H (perform H fresh InitDb) calls))"
  by (rule well_formed_run[OF well_formed_init_fresh])




lemma no_orphans_update_configs:
  assumes "no_orphans d" and "user_configs d = Some cs"
    and "\<And>r. c_user_id (g r) = c_user_id r"
  shows "no_orphans (d\<lparr>user_configs :=
           Some (map (\<lambda>r. if c_user_id r = uid then g r else r) cs)\<rparr>)"
proof -
  have m: "map c_user_id (map (\<lambda>r. if c_user_id r = uid then g r else r) cs)
             = map c_user_id cs"
    by (rule map_config_ids) (rule assms(3))
  have k: "filter (\<lambda>r. c_user_id r = k) rows \<noteq> [] \<longleftrightarrow> k \<in> set (map c_user_id rows)"
    for k and rows :: "config_row list"
    by (auto simp: filter_empty_conv)
  show ?thesis
    using assms(1,2) unfolding no_orphans_def config_rows_of_def
    by (simp split: option.splits del: map_map set_map add: k m)
qed

lemma no_orphans_perform: "no_orphans (disk w) \<Longrightarrow> no_orphans (disk (perform H w c))"
proof (cases c)
  case InitDb
  assume "no_orphans (disk w)"
  then show ?thesis using InitDb disk_init_db[of w]
    by (auto simp: no_orphans_def config_rows_of_def split: option.splits)
next
  case (CreateUser now1 now2 u p)
  assume a: "no_orphans (disk w)"
  from disk_create_user[of H now1 now2 w u p]
  have "no_orphans (disk (fst (create_user H now1 now2 w u p)))"
  proof
    assume "disk (fst (create_user H now1 now2 w u p)) = disk w"
    with a show ?thesis by simp
  next
    assume "\<exists>us cs rid. users (disk w) = Some us \<and> user_configs (disk w) = Some cs
         \<and> u \<notin> set (map u_username us)
         \<and> new_rowid (users_seq (disk w)) (map u_id us) = Inr rid
         \<and> rid \<notin> set (map c_user_id cs) \<and> is_int64 rid
         \<and> disk (fst (create_user H now1 now2 w u p)) =
             (disk w)\<lparr>users := Some (us @ [\<lparr>u_id = rid, u_username = u,
                                            u_password_hash = H p,
                                            u_created_at = now1, u_is_active = 1\<rparr>]),
                      users_seq := rid,
                      user_configs := Some (cs @ [\<lparr>c_user_id = rid, c_chat_id = [],
                           c_name_prefix = ''[END TO END]'', c_delay = 10, c_cookies = [],
                           c_messages = default_messages, c_automation_running = 0,
                           c_updated_at = now2\<rparr>])\<rparr>"
    then obtain us cs rid where
      h: "users (disk w) = Some us" "user_configs (disk w) = Some cs"
      and d: "disk (fst (create_user H now1 now2 w u p)) =
             (disk w)\<lparr>users := Some (us @ [\<lparr>u_id = rid, u_username = u,
                                            u_password_hash = H p,
                                            u_created_at = now1, u_is_active = 1\<rparr>]),
                      users_seq := rid,
                      user_configs := Some (cs @ [\<lparr>c_user_id = rid, c_chat_id = [],
                           c_name_prefix = ''[END TO END]'', c_delay = 10, c_cookies = [],
                           c_messages = default_messages, c_automation_running = 0,
                           c_updated_at = now2\<rparr>])\<rparr>"
      by blast
    show ?thesis
      using a h unfolding d no_orphans_def config_rows_of_def
      by (auto simp: list_all_iff filter_empty_conv)
  qed
  then show ?thesis using CreateUser by simp
next
  case (UpdateUserConfig now uid a b d c m)
  assume "no_orphans (disk w)"
  then show ?thesis using UpdateUserConfig disk_update_user_config[of now w uid a b d c m]
    by (auto simp: no_orphans_update_configs)
next
  case (SetAutomationRunning uid b)
  assume "no_orphans (disk w)"
  then show ?thesis using SetAutomationRunning disk_set_automation_running[of w uid b]
    by (auto simp: no_orphans_update_configs)
next
  case (SetAdminThread now uid t c ct)
  assume "no_orphans (disk w)"
  then show ?thesis using SetAdminThread disk_set_admin[of now w uid t c ct]
    by (auto simp: no_orphans_def config_rows_of_def split: option.splits)
qed (simp_all add: collect_def)

lemma no_orphans_run: "no_orphans (disk w) \<Longrightarrow> no_orphans (disk (run H w cs))"
  unfolding run_def by (induction cs arbitrary: w) (simp_all add: no_orphans_perform)

section \<open>What \<^verbatim>\<open>verify_user\<close> finds\<close>

lemma verify_user_rows:
  "users (disk w) = Some us \<Longrightarrow>
   verify_user H w username password =
     map_option u_id (find (\<lambda>r. u_username r = username \<and> u_password_hash r = H password
                                 \<and> u_is_active r = 1) us)"
  by (simp add: verify_user_def verify_user_try_def select_id_by_credentials_def
      get_db_connection_def)

lemma verify_user_unknown:
  "username \<notin> usernames (disk w) \<Longrightarrow> verify_user H w username password = None"
  by (auto simp: verify_user_def verify_user_try_def select_id_by_credentials_def
      get_db_connection_def usernames_def find_None_iff split: option.splits)

lemma verify_user_raises:
  "verify_user_try H w username password = Inl e \<Longrightarrow> verify_user H w username password = None"
  by (simp add: verify_user_def)

lemma users_grow_perform:
  "users (disk w) = Some us \<Longrightarrow> \<exists>ext. users (disk (perform H w c)) = Some (us @ ext)"
proof (cases c)
  case InitDb
  assume "users (disk w) = Some us"
  then show ?thesis using InitDb disk_init_db[of w] by auto
next
  case (CreateUser now1 now2 u p)
  assume "users (disk w) = Some us"
  then show ?thesis using CreateUser disk_create_user[of H now1 now2 w u p] by auto
next
  case (UpdateUserConfig now uid a b d c m)
  assume "users (disk w) = Some us"
  then show ?thesis using UpdateUserConfig disk_update_user_config[of now w uid a b d c m]
    by auto
next
  case (SetAutomationRunning uid b)
  assume "users (disk w) = Some us"
  then show ?thesis using SetAutomationRunning disk_set_automation_running[of w uid b]
    by auto
next
  case (SetAdminThread now uid t c ct)
  assume "users (disk w) = Some us"
  then show ?thesis using SetAdminThread disk_set_admin[of now w uid t c ct] by auto
qed (simp_all add: collect_def)

lemma users_grow_run:
  "users (disk w) = Some us \<Longrightarrow> \<exists>ext. users (disk (run H w cs)) = Some (us @ ext)"
  unfolding run_def
proof (induction cs arbitrary: w us)
  case Nil
  then show ?case by simp
next
  case (Cons c cs)
  from users_grow_perform[OF Cons.prems, of H c] obtain e1 where
    e1: "users (disk (perform H w c)) = Some (us @ e1)" by blast
  from Cons.IH[OF e1] obtain e2 where
    "users (disk (foldl (perform H) (perform H w c) cs)) = Some ((us @ e1) @ e2)" by blast
  then show ?case by auto
qed

lemma verify_user_row:
  assumes "well_formed (disk t)" and "users (disk t) = Some us" and "r \<in> set us"
    and "u_is_active r = 1"
  shows "verify_user H t (u_username r) password =
           (if u_password_hash r = H password then Some (u_id r) else None)"
proof -
  from assms(1,2) have d: "distinct (map u_username us)"
    by (auto simp: well_formed_def split: option.splits)
  show ?thesis
  proof (cases "u_password_hash r = H password")
    case True
    have "find (\<lambda>x. u_username x = u_username r \<and> u_password_hash x = H password
                    \<and> u_is_active x = 1) us = Some r"
      by (rule find_unique[OF d assms(3)]) (use True assms(4) in auto)
    then show ?thesis using True assms(2) by (simp add: verify_user_rows)
  next
    case False
    have "find (\<lambda>x. u_username x = u_username r \<and> u_password_hash x = H password
                    \<and> u_is_active x = 1) us = None"
    proof -
      { fix x assume x: "x \<in> set us" "u_username x = u_username r"
        from d x assms(3) have "x = r" by (meson distinct_map inj_onD)
      }
      with False show ?thesis by (auto simp: find_None_iff)
    qed
    then show ?thesis using False assms(2) by (simp add: verify_user_rows)
  qed
qed



section \<open>Integers the driver refuses\<close>

text \<open>
  An integer outside the signed 64-bit range never reaches a statement: the call that
  carries it leaves through its \<^verbatim>\<open>except\<close> clause, with the file as it was and
  without the lock.
\<close>

lemma update_user_config_refused:
  "\<not> is_int64 uid \<or> \<not> is_int64 dly \<Longrightarrow>
   update_user_config now w uid chat pre dly cook msgs
     = (leave_open (get_db_connection w) w, False)"
  using update_user_config_cases[of w uid dly now chat pre cook msgs] by auto

lemma set_automation_running_refused:
  "\<not> is_int64 uid \<Longrightarrow>
   set_automation_running w uid running = (leave_open (get_db_connection w) w, False)"
  using set_automation_running_cases[of w uid running] by auto

lemma set_admin_e2ee_thread_id_refused:
  "\<not> is_int64 uid \<Longrightarrow>
   set_admin_e2ee_thread_id now w uid t c ct = (leave_open (get_db_connection w) w, False)"
  using set_admin_cases[of w uid now t c ct] by auto

section \<open>A duplicate username and the lock it leaves\<close>

lemma create_user_present:
  assumes "\<not> locked w" and "room (disk w)" and "username \<in> usernames (disk w)"
  shows "create_user H now1 now2 w username password =
           (leave_open \<lparr>view = disk w, writing = True\<rparr> w, False, ''Username already exists!'')"
proof -
  from assms(3) obtain us where us: "users (disk w) = Some us"
      "username \<in> set (map u_username us)"
    by (auto simp: usernames_def split: option.splits)
  from assms(2) us obtain rid where "new_rowid (users_seq (disk w)) (map u_id us) = Inr rid"
    by (auto simp: room_def split: sum.splits)
  with us assms(1) have "create_user_try H now1 now2 w username password =
      Inl (IntegrityError ''UNIQUE constraint failed: users.username'',
           \<lparr>view = disk w, writing = True\<rparr>, w)"
    by (simp add: create_user_try_def insert_users_def conn_defs)
  then show ?thesis by (simp add: create_user_def)
qed

lemma create_user_locked:
  assumes "locked w" and "users (disk w) \<noteq> None"
  shows "create_user H now1 now2 w username password =
           (leave_open (get_db_connection w) w, False, ''Error: database is locked'')"
proof -
  from assms have "create_user_try H now1 now2 w username password =
      Inl (OperationalError ''database is locked'', get_db_connection w, w)"
    by (auto simp: create_user_try_def insert_users_def conn_defs)
  then show ?thesis by (simp add: create_user_def)
qed

lemma locked_leave_open: "locked (leave_open \<lparr>view = d, writing = True\<rparr> w)"
  by (simp add: locked_def leave_open_def)

lemma collect_unlocked: "\<not> locked (collect w)"
  by (simp add: locked_def collect_def)

section \<open>The example stores\<close>

lemma at_rest_unlocked: "\<not> locked (at_rest d)"
  by (simp add: locked_def at_rest_def)

lemma disk_at_rest: "disk (at_rest d) = d"
  by (simp add: at_rest_def)

lemma store_alice_created:
  "create_user (\<lambda>p. p) ''t0'' ''t0''
     (at_rest \<lparr>users = Some [], users_seq = 0, user_configs = Some [],
               admin_threads = Some []\<rparr>) ''alice'' ''secret''
     = (at_rest store_alice, True, ''Account created successfully!'')"
  by (simp add: create_user_def create_user_try_def insert_users_def select_id_by_username_def
      insert_user_configs_def conn_defs at_rest_def locked_def
      new_rowid_def bind_int_def is_int64_def max_rowid_def store_alice_def)

lemma store_bob_created:
  "create_user (\<lambda>p. p) ''t1'' ''t2'' (at_rest store_alice) ''bob'' ''pw''
     = (at_rest store_bob, True, ''Account created successfully!'')"
  by (simp add: create_user_def create_user_try_def insert_users_def select_id_by_username_def
      insert_user_configs_def conn_defs at_rest_def locked_def
      new_rowid_def bind_int_def is_int64_def max_rowid_def store_alice_def store_bob_def)

lemma well_formed_store_alice: "well_formed (disk (at_rest store_alice))"
  by (simp add: well_formed_def store_alice_def at_rest_def is_int64_def max_rowid_def)

lemma room_store_alice: "room (disk (at_rest store_alice))"
  by (simp add: room_def store_alice_def at_rest_def new_rowid_def max_rowid_def)

lemma usernames_store_alice: "usernames (disk (at_rest store_alice)) = {''alice''}"
  by (simp add: usernames_def store_alice_def at_rest_def)

lemma usernames_store_bob: "usernames store_bob = {''alice'', ''bob''}"
  by (auto simp: usernames_def store_bob_def)

lemma user_rows_store_bob:
  "user_rows_of store_bob ''bob'' =
     [\<lparr>u_id = 2, u_username = ''bob'', u_password_hash = ''pw'',
       u_created_at = ''t1'', u_is_active = 1\<rparr>]"
  by (simp add: user_rows_of_def store_bob_def)




lemma insert_users_orphan:
  "insert_users ''t1'' (at_rest store_orphan) (get_db_connection (at_rest store_orphan))
     (Some ''bob'') (Some ''pw'') = Inr conn_orphan"
  by (simp add: insert_users_def store_orphan_def conn_orphan_def new_rowid_def max_rowid_def
      conn_defs at_rest_def locked_def)

lemma select_id_orphan: "select_id_by_username conn_orphan ''bob'' = Inr (Some 1)"
  by (simp add: select_id_by_username_def conn_orphan_def)

lemma insert_user_configs_orphan:
  "insert_user_configs ''t2'' (at_rest store_orphan) conn_orphan 1
     '''' ''[END TO END]'' 10 '''' default_messages
     = Inl (IntegrityError ''UNIQUE constraint failed: user_configs.user_id'', conn_orphan)"
  by (simp add: insert_user_configs_def conn_orphan_def store_orphan_def bind_int_def
      is_int64_def max_rowid_def conn_defs)

lemma no_orphans_store_alice: "no_orphans (disk (at_rest store_alice))"
  by (simp add: no_orphans_def config_rows_of_def store_alice_def at_rest_def)

section \<open>Accounts\<close>



text \<open>
  Claim C4. On a store that holds the user alice and has no connection open, creating
  an account under the name alice returns false with "Username already exists!" and
  leaves the rows as they were, but it returns with its connection open in a
  transaction that holds the write lock. The same call made again, before the collector
  has freed that connection, returns false with "Error: database is locked"; so does
  every other write. The claim asks for "Username already exists!" on every call with a
  username that is present, and for a store left as it was.
\<close>

theorem create_user_existing_username_twice:
  "create_user (\<lambda>p. p) ''t1'' ''t1'' (at_rest store_alice) ''alice'' ''other''
     = (leave_open conn_alice (at_rest store_alice), False, ''Username already exists!'')
   \<and> leave_open conn_alice (at_rest store_alice) \<noteq> at_rest store_alice
   \<and> locked (leave_open conn_alice (at_rest store_alice))
   \<and> ''alice'' \<in> usernames (disk (leave_open conn_alice (at_rest store_alice)))
   \<and> create_user (\<lambda>p. p) ''t2'' ''t2'' (leave_open conn_alice (at_rest store_alice))
        ''alice'' ''other''
     = (leave_open (get_db_connection (leave_open conn_alice (at_rest store_alice)))
          (leave_open conn_alice (at_rest store_alice)),
        False, ''Error: database is locked'')
   \<and> update_user_config ''t3'' (leave_open conn_alice (at_rest store_alice))
        1 ''chat'' ''pre'' 25 ''cook'' ''msgs''
     = (leave_open (get_db_connection (leave_open conn_alice (at_rest store_alice)))
          (leave_open conn_alice (at_rest store_alice)), False)
   \<and> fst (create_user (\<lambda>p. p) ''t2'' ''t2''
             (collect (leave_open conn_alice (at_rest store_alice))) ''alice'' ''other'')
     = leave_open conn_alice (at_rest store_alice)"
proof -
  let ?w = "leave_open conn_alice (at_rest store_alice)"
  have n: "''alice'' \<in> usernames (disk (at_rest store_alice))"
    by (simp add: usernames_store_alice)
  have a: "create_user (\<lambda>p. p) ''t1'' ''t1'' (at_rest store_alice) ''alice'' ''other''
     = (?w, False, ''Username already exists!'')"
    using create_user_present[OF at_rest_unlocked room_store_alice n,
        of "\<lambda>p. p" "''t1''" "''t1''" "''other''"]
    by (simp add: conn_alice_def disk_at_rest)
  have b: "?w \<noteq> at_rest store_alice"
    by (simp add: leave_open_def at_rest_def)
  have l: "locked ?w" by (simp add: conn_alice_def locked_leave_open)
  have d: "disk ?w = store_alice" by (simp add: leave_open_def at_rest_def)
  have u: "users (disk ?w) \<noteq> None" unfolding d by (simp add: store_alice_def)
  have c: "create_user (\<lambda>p. p) ''t2'' ''t2'' ?w ''alice'' ''other''
     = (leave_open (get_db_connection ?w) ?w, False, ''Error: database is locked'')"
    using l u by (rule create_user_locked)
  have e: "update_user_config ''t3'' ?w 1 ''chat'' ''pre'' 25 ''cook'' ''msgs''
     = (leave_open (get_db_connection ?w) ?w, False)"
    using update_user_config_cases[of ?w 1 25 "''t3''" "''chat''" "''pre''" "''cook''" "''msgs''"] l
    by auto
  have k: "collect ?w = at_rest store_alice"
    by (simp add: collect_def leave_open_def at_rest_def)
  have f: "fst (create_user (\<lambda>p. p) ''t2'' ''t2'' (collect ?w) ''alice'' ''other'') = ?w"
    unfolding k
    using create_user_present[OF at_rest_unlocked room_store_alice n,
        of "\<lambda>p. p" "''t2''" "''t2''" "''other''"]
    by (simp add: conn_alice_def disk_at_rest)
  have m: "''alice'' \<in> usernames (disk ?w)"
    using n unfolding d by (simp add: disk_at_rest)
  from a b l m c e f show ?thesis by blast
qed



text \<open>
  Claim C3. The two inserts of \<^verbatim>\<open>create_user\<close> are one unit. Whenever the insert into
  \<^verbatim>\<open>users\<close> succeeds and the insert into \<^verbatim>\<open>user_configs\<close> then fails, the new user
  row exists only in the transaction of the connection: the call reports failure, the
  file is as it was and holds no row of that username, before and after the collector
  frees the connection. For every input, either the file is as it was or it holds the
  new user row together with its configuration row. A file in which every user has a
  configuration row stays so through every sequence of calls, and so does every file
  that the module makes out of a new one: a user without a configuration row is never
  written.
\<close>

theorem create_user_atomic:
  "(insert_users now1 w (get_db_connection w) (Some username) (Some (H password)) = Inr conn1
      \<and> select_id_by_username conn1 username = Inr (Some uid)
      \<and> insert_user_configs now2 w conn1 uid '''' ''[END TO END]'' 10 '''' default_messages
          = Inl (e, conn2)
    \<longrightarrow> user_rows_of (view conn1) username =
          [\<lparr>u_id = uid, u_username = username, u_password_hash = H password,
            u_created_at = now1, u_is_active = 1\<rparr>]
      \<and> fst (create_user H now1 now2 w username password) = leave_open conn2 w
      \<and> \<not> fst (snd (create_user H now1 now2 w username password))
      \<and> disk (fst (create_user H now1 now2 w username password)) = disk w
      \<and> user_rows_of (disk (fst (create_user H now1 now2 w username password))) username = []
      \<and> disk (collect (fst (create_user H now1 now2 w username password))) = disk w)
   \<and> (disk (fst (create_user H now1 now2 w username password)) = disk w
      \<or> (\<exists>rid. user_rows_of (disk (fst (create_user H now1 now2 w username password))) username =
                  [\<lparr>u_id = rid, u_username = username, u_password_hash = H password,
                    u_created_at = now1, u_is_active = 1\<rparr>]
             \<and> config_rows_of (disk (fst (create_user H now1 now2 w username password))) rid =
                  [\<lparr>c_user_id = rid, c_chat_id = '''', c_name_prefix = ''[END TO END]'',
                    c_delay = 10, c_cookies = '''', c_messages = default_messages,
                    c_automation_running = 0, c_updated_at = now2\<rparr>]))
   \<and> (\<forall>calls. no_orphans (disk w) \<longrightarrow> no_orphans (disk (run H w calls)))
   \<and> (\<forall>calls. no_orphans (disk (run H fresh calls)))"
proof (intro conjI impI allI)
  assume a: "insert_users now1 w (get_db_connection w) (Some username) (Some (H password))
               = Inr conn1
      \<and> select_id_by_username conn1 username = Inr (Some uid)
      \<and> insert_user_configs now2 w conn1 uid '''' ''[END TO END]'' 10 '''' default_messages
          = Inl (e, conn2)"
  then have t: "create_user_try H now1 now2 w username password = Inl (e, conn2, w)"
    by (simp add: create_user_try_def)
  then have r: "fst (create_user H now1 now2 w username password) = leave_open conn2 w"
     "\<not> fst (snd (create_user H now1 now2 w username password))"
    by (cases e; simp add: create_user_def)+
  from a insert_users_Inr[of now1 w username "H password" conn1] obtain us rid where
    us: "users (disk w) = Some us" "username \<notin> set (map u_username us)"
    and c1: "conn1 = \<lparr>view = (disk w)\<lparr>users := Some (us @ [\<lparr>u_id = rid,
                                            u_username = username,
                                            u_password_hash = H password,
                                            u_created_at = now1, u_is_active = 1\<rparr>]),
                                     users_seq := rid\<rparr>,
                       writing = True\<rparr>"
    by blast
  have "select_id_by_username conn1 username = Inr (Some rid)"
    unfolding c1 using us(2) by (rule select_id_after_insert)
  with a have rid: "rid = uid" by simp
  have f1: "filter (\<lambda>r. u_username r = username) us = []"
    using us(2) by (induction us) auto
  show "user_rows_of (view conn1) username =
          [\<lparr>u_id = uid, u_username = username, u_password_hash = H password,
            u_created_at = now1, u_is_active = 1\<rparr>]"
    by (simp add: c1 rid user_rows_of_def f1)
  show "fst (create_user H now1 now2 w username password) = leave_open conn2 w"
    "\<not> fst (snd (create_user H now1 now2 w username password))"
    by (rule r)+
  show "disk (fst (create_user H now1 now2 w username password)) = disk w"
    by (simp add: r leave_open_def)
  show "user_rows_of (disk (fst (create_user H now1 now2 w username password))) username = []"
    using us by (simp add: r leave_open_def user_rows_of_def f1)
  show "disk (collect (fst (create_user H now1 now2 w username password))) = disk w"
    by (simp add: r leave_open_def collect_def)
next
  from disk_create_user[of H now1 now2 w username password]
  show "disk (fst (create_user H now1 now2 w username password)) = disk w
      \<or> (\<exists>rid. user_rows_of (disk (fst (create_user H now1 now2 w username password))) username =
                  [\<lparr>u_id = rid, u_username = username, u_password_hash = H password,
                    u_created_at = now1, u_is_active = 1\<rparr>]
             \<and> config_rows_of (disk (fst (create_user H now1 now2 w username password))) rid =
                  [\<lparr>c_user_id = rid, c_chat_id = '''', c_name_prefix = ''[END TO END]'',
                    c_delay = 10, c_cookies = '''', c_messages = default_messages,
                    c_automation_running = 0, c_updated_at = now2\<rparr>])"
  proof
    assume "disk (fst (create_user H now1 now2 w username password)) = disk w"
    then show ?thesis by simp
  next
    assume "\<exists>us cs rid. users (disk w) = Some us \<and> user_configs (disk w) = Some cs
         \<and> username \<notin> set (map u_username us)
         \<and> new_rowid (users_seq (disk w)) (map u_id us) = Inr rid
         \<and> rid \<notin> set (map c_user_id cs) \<and> is_int64 rid
         \<and> disk (fst (create_user H now1 now2 w username password)) =
             (disk w)\<lparr>users := Some (us @ [\<lparr>u_id = rid, u_username = username,
                                            u_password_hash = H password,
                                            u_created_at = now1, u_is_active = 1\<rparr>]),
                      users_seq := rid,
                      user_configs := Some (cs @ [\<lparr>c_user_id = rid, c_chat_id = '''',
                           c_name_prefix = ''[END TO END]'', c_delay = 10, c_cookies = '''',
                           c_messages = default_messages, c_automation_running = 0,
                           c_updated_at = now2\<rparr>])\<rparr>"
    then obtain us cs rid where
      h: "username \<notin> set (map u_username us)" "rid \<notin> set (map c_user_id cs)"
      and d: "disk (fst (create_user H now1 now2 w username password)) =
             (disk w)\<lparr>users := Some (us @ [\<lparr>u_id = rid, u_username = username,
                                            u_password_hash = H password,
                                            u_created_at = now1, u_is_active = 1\<rparr>]),
                      users_seq := rid,
                      user_configs := Some (cs @ [\<lparr>c_user_id = rid, c_chat_id = '''',
                           c_name_prefix = ''[END TO END]'', c_delay = 10, c_cookies = '''',
                           c_messages = default_messages, c_automation_running = 0,
                           c_updated_at = now2\<rparr>])\<rparr>"
      by blast
    have f1: "filter (\<lambda>r. u_username r = username) us = []"
      using h(1) by (induction us) auto
    have f2: "filter (\<lambda>r. c_user_id r = rid) cs = []"
      using h(2) by (rule filter_key_absent)
    show ?thesis
      unfolding d by (simp add: user_rows_of_def config_rows_of_def f1 f2)
  qed
next
  fix calls
  assume "no_orphans (disk w)"
  then show "no_orphans (disk (run H w calls))" by (rule no_orphans_run)
next
  fix calls
  have "no_orphans (disk fresh)" by (simp add: no_orphans_def fresh_def)
  then show "no_orphans (disk (run H fresh calls))" by (rule no_orphans_run)
qed

theorem create_user_atomic_witness:
  "insert_users ''t1'' (at_rest store_orphan) (get_db_connection (at_rest store_orphan))
      (Some ''bob'') (Some ''pw'') = Inr conn_orphan
   \<and> select_id_by_username conn_orphan ''bob'' = Inr (Some 1)
   \<and> insert_user_configs ''t2'' (at_rest store_orphan) conn_orphan 1
        '''' ''[END TO END]'' 10 '''' default_messages
       = Inl (IntegrityError ''UNIQUE constraint failed: user_configs.user_id'', conn_orphan)
   \<and> user_rows_of (view conn_orphan) ''bob'' =
       [\<lparr>u_id = 1, u_username = ''bob'', u_password_hash = ''pw'',
         u_created_at = ''t1'', u_is_active = 1\<rparr>]
   \<and> fst (create_user (\<lambda>p. p) ''t1'' ''t2'' (at_rest store_orphan) ''bob'' ''pw'')
       = leave_open conn_orphan (at_rest store_orphan)
   \<and> \<not> fst (snd (create_user (\<lambda>p. p) ''t1'' ''t2'' (at_rest store_orphan) ''bob'' ''pw''))
   \<and> disk (fst (create_user (\<lambda>p. p) ''t1'' ''t2'' (at_rest store_orphan) ''bob'' ''pw''))
       = disk (at_rest store_orphan)
   \<and> user_rows_of
        (disk (fst (create_user (\<lambda>p. p) ''t1'' ''t2'' (at_rest store_orphan) ''bob'' ''pw'')))
        ''bob'' = []
   \<and> no_orphans (disk (at_rest store_alice))
   \<and> no_orphans (disk (run (\<lambda>p. p) (at_rest store_alice)
        [CreateUser ''t1'' ''t2'' ''alice'' ''x'', CreateUser ''t3'' ''t4'' ''bob'' ''pw'',
         Collect, CreateUser ''t5'' ''t6'' ''bob'' ''pw'']))"
  using create_user_atomic[of "''t1''" "at_rest store_orphan" "''bob''" "\<lambda>p. p" "''pw''"
      conn_orphan 1 "''t2''"
      "IntegrityError ''UNIQUE constraint failed: user_configs.user_id''" conn_orphan]
    create_user_atomic[of "''t1''" "at_rest store_alice" "''bob''" "\<lambda>p. p" "''pw''"]
    insert_users_orphan select_id_orphan insert_user_configs_orphan no_orphans_store_alice
  by blast

text \<open>
  Claim C2. After an account has been created, and after any further calls of the
  module, \<^verbatim>\<open>verify_user\<close> with that username and the password of the creation returns
  the identifier of the row that the creation wrote. With a password whose digest is
  not the stored one, and with a username that no row carries, it returns \<open>None\<close>, the
  same value in both cases. It never raises: when its query raises, as it does on a
  store without the table, the result is \<open>None\<close> too.
\<close>

theorem verify_user_after_create:
  assumes "well_formed (disk w)" and "room (disk w)" and "\<not> locked w"
    and "username \<notin> usernames (disk w)"
  shows "\<exists>w' uid.
           create_user H now1 now2 w username password
             = (w', True, ''Account created successfully!'')
         \<and> user_rows_of (disk w') username =
               [\<lparr>u_id = uid, u_username = username, u_password_hash = H password,
                 u_created_at = now1, u_is_active = 1\<rparr>]
         \<and> (\<forall>calls. verify_user H (run H w' calls) username password = Some uid)
         \<and> (\<forall>calls wrong. H wrong \<noteq> H password \<longrightarrow>
               verify_user H (run H w' calls) username wrong = None)
         \<and> (\<forall>t unknown pw. unknown \<notin> usernames (disk t) \<longrightarrow>
               verify_user H t unknown pw = None)
         \<and> (\<forall>t name pw e. verify_user_try H t name pw = Inl e \<longrightarrow>
               verify_user H t name pw = None)"
proof -
  from create_user_try_fresh[OF assms, of H now1 now2 password] obtain us cs rid where
    h: "users (disk w) = Some us" "user_configs (disk w) = Some cs"
    and t: "create_user_try H now1 now2 w username password =
               Inr (w\<lparr>disk := (disk w)\<lparr>users := Some (us @ [\<lparr>u_id = rid,
                                            u_username = username,
                                            u_password_hash = H password,
                                            u_created_at = now1, u_is_active = 1\<rparr>]),
                      users_seq := rid,
                      user_configs := Some (cs @ [\<lparr>c_user_id = rid, c_chat_id = '''',
                           c_name_prefix = ''[END TO END]'', c_delay = 10, c_cookies = '''',
                           c_messages = default_messages, c_automation_running = 0,
                           c_updated_at = now2\<rparr>])\<rparr>\<rparr>)"
      (is "_ = Inr ?w'")
    by blast
  let ?row = "\<lparr>u_id = rid, u_username = username, u_password_hash = H password,
               u_created_at = now1, u_is_active = 1\<rparr>"
  have cu: "create_user H now1 now2 w username password
              = (?w', True, ''Account created successfully!'')"
    by (simp add: create_user_def t)
  have fresh: "username \<notin> set (map u_username us)"
    using assms(4) h(1) by (simp add: usernames_def)
  have f1: "filter (\<lambda>r. u_username r = username) us = []"
    using fresh by (induction us) auto
  have rows: "user_rows_of (disk ?w') username = [?row]"
    by (simp add: user_rows_of_def f1)
  have wf': "well_formed (disk ?w')"
    using well_formed_create_user[OF assms(1), of H now1 now2 username password] cu by simp
  have us': "users (disk ?w') = Some (us @ [?row])" by simp
  { fix calls pw
    from users_grow_run[OF us', of H calls] obtain ext where
      e: "users (disk (run H ?w' calls)) = Some ((us @ [?row]) @ ext)" by blast
    have w: "well_formed (disk (run H ?w' calls))" using wf' by (rule well_formed_run)
    have "verify_user H (run H ?w' calls) (u_username ?row) pw =
            (if u_password_hash ?row = H pw then Some (u_id ?row) else None)"
      by (rule verify_user_row[OF w e]) simp_all
    then have "verify_user H (run H ?w' calls) username pw =
            (if H password = H pw then Some rid else None)" by simp
  } note v = this
  have a: "\<forall>calls. verify_user H (run H ?w' calls) username password = Some rid"
    by (simp add: v)
  have b: "\<forall>calls wrong. H wrong \<noteq> H password \<longrightarrow>
               verify_user H (run H ?w' calls) username wrong = None"
    by (auto simp: v)
  have c: "\<forall>t unknown pw. unknown \<notin> usernames (disk t) \<longrightarrow>
             verify_user H t unknown pw = None"
    by (simp add: verify_user_unknown)
  have d: "\<forall>t name pw e. verify_user_try H t name pw = Inl e \<longrightarrow>
               verify_user H t name pw = None"
    by (simp add: verify_user_raises)
  show ?thesis using cu rows a b c d by blast
qed

theorem verify_user_after_create_witness:
  "well_formed (disk (at_rest store_alice)) \<and> room (disk (at_rest store_alice))
   \<and> \<not> locked (at_rest store_alice) \<and> ''bob'' \<notin> usernames (disk (at_rest store_alice))
   \<and> create_user (\<lambda>p. p) ''t1'' ''t2'' (at_rest store_alice) ''bob'' ''pw''
       = (at_rest store_bob, True, ''Account created successfully!'')
   \<and> verify_user (\<lambda>p. p) (at_rest store_bob) ''bob'' ''pw'' = Some 2
   \<and> verify_user (\<lambda>p. p)
        (run (\<lambda>p. p) (at_rest store_bob)
           [SetAutomationRunning 2 True, CreateUser ''t3'' ''t3'' ''bob'' ''again'',
            CreateUser ''t4'' ''t4'' ''carol'' ''x'', Collect])
        ''bob'' ''pw'' = Some 2
   \<and> verify_user (\<lambda>p. p) (at_rest store_bob) ''bob'' ''bad'' = None
   \<and> verify_user (\<lambda>p. p) (at_rest store_bob) ''dave'' ''pw'' = None
   \<and> verify_user_try (\<lambda>p. p) fresh ''bob'' ''pw''
       = Inl (OperationalError ''no such table: users'')
   \<and> verify_user (\<lambda>p. p) fresh ''bob'' ''pw'' = None"
proof -
  have n: "''bob'' \<notin> usernames (disk (at_rest store_alice))"
    by (simp add: usernames_store_alice)
  from verify_user_after_create[OF well_formed_store_alice room_store_alice
      at_rest_unlocked n, of "\<lambda>p. p" "''t1''" "''t2''" "''pw''"]
  obtain w' uid where
    c: "create_user (\<lambda>p. p) ''t1'' ''t2'' (at_rest store_alice) ''bob'' ''pw''
          = (w', True, ''Account created successfully!'')"
    and u: "user_rows_of (disk w') ''bob'' =
          [\<lparr>u_id = uid, u_username = ''bob'', u_password_hash = ''pw'',
            u_created_at = ''t1'', u_is_active = 1\<rparr>]"
    and v: "\<And>calls. verify_user (\<lambda>p. p) (run (\<lambda>p. p) w' calls) ''bob'' ''pw'' = Some uid"
    and w: "\<And>calls wrong. wrong \<noteq> ''pw'' \<Longrightarrow>
              verify_user (\<lambda>p. p) (run (\<lambda>p. p) w' calls) ''bob'' wrong = None"
    and x: "\<And>t unknown pw. unknown \<notin> usernames (disk t) \<Longrightarrow>
              verify_user (\<lambda>p. p) t unknown pw = None"
    and e: "\<And>t name pw e. verify_user_try (\<lambda>p. p) t name pw = Inl e \<Longrightarrow>
              verify_user (\<lambda>p. p) t name pw = None"
    by blast
  from c have w': "w' = at_rest store_bob" by (simp add: store_bob_created)
  with u have uid: "uid = 2" by (simp add: user_rows_store_bob disk_at_rest)
  have r: "run (\<lambda>p. p) (at_rest store_bob) [] = at_rest store_bob" by (simp add: run_def)
  have v0: "verify_user (\<lambda>p. p) (at_rest store_bob) ''bob'' ''pw'' = Some 2"
    using v[of "[]"] by (simp add: w' uid r)
  have v1: "verify_user (\<lambda>p. p)
        (run (\<lambda>p. p) (at_rest store_bob)
           [SetAutomationRunning 2 True, CreateUser ''t3'' ''t3'' ''bob'' ''again'',
            CreateUser ''t4'' ''t4'' ''carol'' ''x'', Collect])
        ''bob'' ''pw'' = Some 2"
    using v[of "[SetAutomationRunning 2 True, CreateUser ''t3'' ''t3'' ''bob'' ''again'',
            CreateUser ''t4'' ''t4'' ''carol'' ''x'', Collect]"]
    by (simp add: w' uid)
  have w0: "verify_user (\<lambda>p. p) (at_rest store_bob) ''bob'' ''bad'' = None"
    using w[of "''bad''" "[]"] by (simp add: w' r)
  have x0: "verify_user (\<lambda>p. p) (at_rest store_bob) ''dave'' ''pw'' = None"
    by (rule x) (simp add: usernames_store_bob disk_at_rest)
  have t: "verify_user_try (\<lambda>p. p) fresh ''bob'' ''pw''
             = Inl (OperationalError ''no such table: users'')"
    by (simp add: verify_user_try_def select_id_by_credentials_def get_db_connection_def
        fresh_def)
  have e0: "verify_user (\<lambda>p. p) fresh ''bob'' ''pw'' = None" using t by (rule e)
  from c w' v0 v1 w0 x0 t e0 n show ?thesis
    by (simp add: well_formed_store_alice room_store_alice at_rest_unlocked)
qed

section \<open>Configuration\<close>







section \<open>Admin threads\<close>



section \<open>Schema\<close>

text \<open>
  Claim C8. \<^verbatim>\<open>init_db\<close> on a store whose three tables exist raises nothing and returns
  the store it was given, so no row is lost and no table is made twice. Whenever it
  returns, on any store, a table that existed keeps its rows, all three tables exist
  afterwards, and running it again returns the same store: twice is the same as once.
  It returns on every store that no open connection has locked.
\<close>

theorem init_db_idempotent:
  "(tables_exist (disk w) \<longrightarrow> init_db w = Inr w)
   \<and> (\<forall>w'. init_db w = Inr w' \<longrightarrow>
         init_db w' = Inr w'
       \<and> tables_exist (disk w')
       \<and> open_conns w' = open_conns w
       \<and> users_seq (disk w') = users_seq (disk w)
       \<and> (\<forall>us. users (disk w) = Some us \<longrightarrow> users (disk w') = Some us)
       \<and> (\<forall>cs. user_configs (disk w) = Some cs \<longrightarrow> user_configs (disk w') = Some cs)
       \<and> (\<forall>ts. admin_threads (disk w) = Some ts \<longrightarrow> admin_threads (disk w') = Some ts))
   \<and> (\<not> locked w \<longrightarrow> (\<exists>w'. init_db w = Inr w'))"
proof (intro conjI impI allI)
  assume "tables_exist (disk w)"
  then show "init_db w = Inr w" by (rule init_db_exists)
next
  fix w'
  assume a: "init_db w = Inr w'"
  note e = init_db_Inr[OF a]
  show t: "tables_exist (disk w')"
    unfolding e by (simp add: tables_exist_def split: option.splits)
  show "init_db w' = Inr w'" using t by (rule init_db_exists)
  show "open_conns w' = open_conns w" unfolding e by simp
  show "users_seq (disk w') = users_seq (disk w)" unfolding e by simp
next
  fix w' us
  assume a: "init_db w = Inr w'" and "users (disk w) = Some us"
  then show "users (disk w') = Some us" using init_db_Inr[OF a] by simp
next
  fix w' cs
  assume a: "init_db w = Inr w'" and "user_configs (disk w) = Some cs"
  then show "user_configs (disk w') = Some cs" using init_db_Inr[OF a] by simp
next
  fix w' ts
  assume a: "init_db w = Inr w'" and "admin_threads (disk w) = Some ts"
  then show "admin_threads (disk w') = Some ts" using init_db_Inr[OF a] by simp
next
  assume "\<not> locked w"
  then show "\<exists>w'. init_db w = Inr w'" by (simp add: init_db_unlocked)
qed

theorem init_db_idempotent_witness:
  "tables_exist (disk (at_rest store_alice))
   \<and> init_db (at_rest store_alice) = Inr (at_rest store_alice)
   \<and> init_db (leave_open conn_alice (at_rest store_alice))
       = Inr (leave_open conn_alice (at_rest store_alice))
   \<and> \<not> locked fresh
   \<and> init_db fresh = Inr (at_rest \<lparr>users = Some [], users_seq = 0, user_configs = Some [],
                                     admin_threads = Some []\<rparr>)
   \<and> init_db (at_rest \<lparr>users = Some [], users_seq = 0, user_configs = Some [],
                         admin_threads = Some []\<rparr>)
       = Inr (at_rest \<lparr>users = Some [], users_seq = 0, user_configs = Some [],
                        admin_threads = Some []\<rparr>)"
proof -
  have t: "tables_exist (disk (at_rest store_alice))"
    by (simp add: tables_exist_def store_alice_def at_rest_def)
  have t': "tables_exist (disk (leave_open conn_alice (at_rest store_alice)))"
    by (simp add: tables_exist_def store_alice_def at_rest_def leave_open_def)
  have f: "\<not> locked fresh" by (simp add: locked_def fresh_def)
  from init_db_idempotent[of "at_rest store_alice"] t
  have a: "init_db (at_rest store_alice) = Inr (at_rest store_alice)" by blast
  from init_db_idempotent[of "leave_open conn_alice (at_rest store_alice)"] t'
  have b: "init_db (leave_open conn_alice (at_rest store_alice))
       = Inr (leave_open conn_alice (at_rest store_alice))" by blast
  from init_db_idempotent[of fresh] init_db_fresh
  have c: "init_db (at_rest \<lparr>users = Some [], users_seq = 0, user_configs = Some [],
                         admin_threads = Some []\<rparr>)
       = Inr (at_rest \<lparr>users = Some [], users_seq = 0, user_configs = Some [],
                        admin_threads = Some []\<rparr>)" by blast
  from t a b c f init_db_fresh show ?thesis by simp
qed

end
